theory Spec2Isabelle
  imports Main "HOL-Library.Sublist" "HOL-Library.Monad_Syntax"
begin

section \<open>Strings\<close>

text \<open>
  A JavaScript string is a sequence of code units. It is modelled as a \<open>string\<close>, a list
  of 8-bit characters read as the code units U+0000 to U+00FF; the character classes below
  (\<open>\s\<close>, \<open>\w\<close>, \<open>\d\<close>, the argument of \<open>trim\<close> and \<open>toLowerCase\<close>) are the
  ECMAScript ones restricted to that range.
\<close>

text \<open>\<open>s.startsWith(p)\<close> is \<open>prefix p s\<close>; \<open>s.includes(sub)\<close>:\<close>

fun str_includes :: "string \<Rightarrow> string \<Rightarrow> bool" where
  "str_includes [] sub = (sub = [])"
| "str_includes (c # cs) sub = (prefix sub (c # cs) \<or> str_includes cs sub)"

text \<open>
  \<open>s.replace(/lit/g, rep)\<close> for a regular expression that is a literal, non-empty text:
  every occurrence, found from left to right, the search going on after the end of
  the occurrence just replaced.
\<close>

fun replace_all :: "string \<Rightarrow> string \<Rightarrow> string \<Rightarrow> string" where
  "replace_all lit rep [] = []"
| "replace_all lit rep (c # cs) =
     (if lit \<noteq> [] \<and> prefix lit (c # cs)
      then rep @ replace_all lit rep (drop (length lit) (c # cs))
      else c # replace_all lit rep cs)"

text \<open>\<open>s.replace(pat, rep)\<close> with a string pattern: the first occurrence only.\<close>

fun replace_first :: "string \<Rightarrow> string \<Rightarrow> string \<Rightarrow> string" where
  "replace_first pat rep [] = (if pat = [] then rep else [])"
| "replace_first pat rep (c # cs) =
     (if prefix pat (c # cs) then rep @ drop (length pat) (c # cs)
      else c # replace_first pat rep cs)"

section \<open>decodeHtml\<close>

text \<open>
  \<^verbatim>\<open>
  export function decodeHtml(s: string) {
    return s
      .replace(/&amp;/g, "&")
      .replace(/&lt;/g, "<")
      .replace(/&gt;/g, ">")
      .replace(/&quot;/g, '"')
      .replace(/&#39;/g, "'");
  }
  \<close>
\<close>

definition decodeHtml :: "string \<Rightarrow> string" where
  "decodeHtml s =
     replace_all ''&#39;'' [CHR 0x27]
       (replace_all ''&quot;'' [CHR 0x22]
         (replace_all ''&gt;'' ''>''
           (replace_all ''&lt;'' ''<''
             (replace_all ''&amp;'' ''&'' s))))"

section \<open>Exceptions\<close>

text \<open>
  What a \<open>throw\<close> carries: an \<open>Error\<close> object with its message (every \<open>throw\<close> of
  the source is \<open>throw new Error(msg)\<close>), or a value that is not an \<open>Error\<close>. A function
  that may throw returns \<open>exn + 'a\<close>, \<open>Inl\<close> the exception.
\<close>

datatype exn = Error string | NotAnError

section \<open>assertPlayability\<close>

text \<open>
  \<^verbatim>\<open>
  interface PlayabilityStatus { status: string; reason?: string; }

  export function assertPlayability(playabilityStatus: PlayabilityStatus) {
    const status = playabilityStatus?.status;
    if (!status || status === "OK") return;
    const reason = playabilityStatus?.reason || "";
    if (status === "LOGIN_REQUIRED") {
      if (reason.includes("not a bot")) throw new Error("request_blocked");
      if (reason.includes("inappropriate")) throw new Error("age_restricted");
    }
    if (status === "ERROR" && reason.includes("unavailable"))
      throw new Error("video_unavailable");
    throw new Error("video_unplayable");
  }
  \<close>
  The caller passes \<open>data?.playabilityStatus\<close>, which may be \<open>undefined\<close>: the argument
  is an option. \<open>!status\<close> holds of \<open>undefined\<close> and of the empty string.
\<close>

record PlayabilityStatus =
  status :: string
  reason :: "string option"

definition assertPlayability :: "PlayabilityStatus option \<Rightarrow> exn + unit" where
  "assertPlayability playabilityStatus =
     (let st = map_option status playabilityStatus in
      if st = None \<or> st = Some [] \<or> st = Some ''OK'' then Inr ()
      else
        let rsn = (case Option.bind playabilityStatus reason of
                     None \<Rightarrow> [] | Some r \<Rightarrow> r) in
        if st = Some ''LOGIN_REQUIRED'' \<and> str_includes rsn ''not a bot''
          then Inl (Error ''request_blocked'')
        else if st = Some ''LOGIN_REQUIRED'' \<and> str_includes rsn ''inappropriate''
          then Inl (Error ''age_restricted'')
        else if st = Some ''ERROR'' \<and> str_includes rsn ''unavailable''
          then Inl (Error ''video_unavailable'')
        else Inl (Error ''video_unplayable''))"

text \<open>
  The rules of the playability guard as the specification lists them, in order: a
  missing status or \<open>OK\<close> passes, then the three recognised failures, then the
  catch-all.
\<close>

definition reason_text :: "PlayabilityStatus \<Rightarrow> string" where
  "reason_text p = (case reason p of None \<Rightarrow> [] | Some r \<Rightarrow> r)"

definition guard_rules_stated :: "PlayabilityStatus option \<Rightarrow> exn + unit" where
  "guard_rules_stated ps =
     (case ps of
        None \<Rightarrow> Inr ()
      | Some p \<Rightarrow>
          if status p = ''OK'' then Inr ()
          else if status p = ''LOGIN_REQUIRED'' \<and> str_includes (reason_text p) ''not a bot''
            then Inl (Error ''request_blocked'')
          else if status p = ''LOGIN_REQUIRED'' \<and> str_includes (reason_text p) ''inappropriate''
            then Inl (Error ''age_restricted'')
          else if status p = ''ERROR'' \<and> str_includes (reason_text p) ''unavailable''
            then Inl (Error ''video_unavailable'')
          else Inl (Error ''video_unplayable''))"

text \<open>The same rules, the empty status string passing as a missing one does.\<close>

definition guard_rules :: "PlayabilityStatus option \<Rightarrow> exn + unit" where
  "guard_rules ps =
     (case ps of
        None \<Rightarrow> Inr ()
      | Some p \<Rightarrow> if status p = [] then Inr () else guard_rules_stated ps)"

section \<open>Entity decoding in one pass\<close>

text \<open>
  Decoding as the specification words it: each occurrence of one of the five entities
  in the input is replaced by its character, and every other character of the input is
  copied.
\<close>

fun decode_entities :: "string \<Rightarrow> string" where
  "decode_entities [] = []"
| "decode_entities (c # cs) =
     (if prefix ''&amp;'' (c # cs) then CHR ''&'' # decode_entities (drop 4 cs)
      else if prefix ''&lt;'' (c # cs) then CHR ''<'' # decode_entities (drop 3 cs)
      else if prefix ''&gt;'' (c # cs) then CHR ''>'' # decode_entities (drop 3 cs)
      else if prefix ''&quot;'' (c # cs) then CHR 0x22 # decode_entities (drop 5 cs)
      else if prefix ''&#39;'' (c # cs) then CHR 0x27 # decode_entities (drop 4 cs)
      else c # decode_entities cs)"

section \<open>Numbers\<close>

text \<open>
  A JavaScript \<open>number\<close> is a double. The model has the values that the parsers of this
  module produce: the integers (what \<open>Math.round\<close>, and \<open>Number\<close> of a string of digits,
  return when the result is finite), the two infinities and \<open>NaN\<close>; and the operations
  the module applies to them: the subtraction of the sort's comparator, the test \<open>v > 0\<close>,
  the comparison \<open>a <= b\<close> and the conversion to a string.
\<close>

datatype number = Finite int | NaN | PosInfinity | NegInfinity

text \<open>
  \<open>a - b\<close>. (The difference of two finite doubles may be rounded, or overflow to an
  infinity; its sign is that of the exact difference, which is all the sort reads.)
\<close>

fun num_sub :: "number \<Rightarrow> number \<Rightarrow> number" where
  "num_sub NaN b = NaN"
| "num_sub a NaN = NaN"
| "num_sub (Finite a) (Finite b) = Finite (a - b)"
| "num_sub (Finite a) PosInfinity = NegInfinity"
| "num_sub (Finite a) NegInfinity = PosInfinity"
| "num_sub PosInfinity PosInfinity = NaN"
| "num_sub PosInfinity b = PosInfinity"
| "num_sub NegInfinity NegInfinity = NaN"
| "num_sub NegInfinity b = NegInfinity"

text \<open>\<open>v > 0\<close>, false of \<open>NaN\<close>.\<close>

fun num_positive :: "number \<Rightarrow> bool" where
  "num_positive (Finite i) = (0 < i)"
| "num_positive PosInfinity = True"
| "num_positive v = False"

text \<open>\<open>a <= b\<close>, false when either side is \<open>NaN\<close>.\<close>

fun num_le :: "number \<Rightarrow> number \<Rightarrow> bool" where
  "num_le NaN b = False"
| "num_le a NaN = False"
| "num_le NegInfinity b = True"
| "num_le a PosInfinity = True"
| "num_le (Finite a) (Finite b) = (a \<le> b)"
| "num_le a b = False"

text \<open>
  \<open>String(n)\<close> and \<open>`${n}`\<close>: for an integer its decimal digits, after a minus sign when
  it is negative (the rendering of every integer below \<open>10^21\<close> in magnitude).
\<close>

definition digit_char :: "nat \<Rightarrow> char" where
  "digit_char d = char_of (48 + d)"

fun digits :: "nat \<Rightarrow> string" where
  "digits n = (if n < 10 then [digit_char n] else digits (n div 10) @ [digit_char (n mod 10)])"

declare digits.simps [simp del]

definition int_to_string :: "int \<Rightarrow> string" where
  "int_to_string i = (if i < 0 then CHR ''-'' # digits (nat (- i)) else digits (nat i))"

fun number_to_string :: "number \<Rightarrow> string" where
  "number_to_string (Finite i) = int_to_string i"
| "number_to_string NaN = ''NaN''"
| "number_to_string PosInfinity = ''Infinity''"
| "number_to_string NegInfinity = ''-Infinity''"

text \<open>The number a string of decimal digits stands for.\<close>

definition digit_val :: "string \<Rightarrow> nat" where
  "digit_val s = foldl (\<lambda>a c. 10 * a + (of_char c - 48)) 0 s"

section \<open>normalizeSegments\<close>

text \<open>
  \<^verbatim>\<open>
  export interface TranscriptSegment { text: string; startInMs: number; duration: number; }
  \<close>
  The field \<open>text\<close> is written \<open>text'\<close>, \<open>text\<close> being a command of Isabelle.
\<close>

record TranscriptSegment =
  text' :: string
  startInMs :: number
  duration :: number

text \<open>
  What an element of the argument array may be when the function runs: \<open>None\<close> is a
  falsy element (\<open>null\<close>, \<open>undefined\<close>), and \<open>raw_text = None\<close> is a \<open>text\<close> property
  that is not a string. \<open>typed\<close> is an element of the declared type.
\<close>

record raw_segment =
  raw_text :: "string option"
  raw_startInMs :: number
  raw_duration :: number

definition typed :: "TranscriptSegment \<Rightarrow> raw_segment option" where
  "typed s = Some \<lparr>raw_text = Some (text' s), raw_startInMs = startInMs s,
                    raw_duration = duration s\<rparr>"

text \<open>
  \<open>String.prototype.trim\<close> removes white space and line terminators from both ends;
  below U+0100 these are TAB, LF, VT, FF, CR, SP and NBSP.
\<close>

definition is_white_space :: "char \<Rightarrow> bool" where
  "is_white_space c = (c \<in> {CHR 0x09, CHR 0x0A, CHR 0x0B, CHR 0x0C, CHR 0x0D, CHR 0x20, CHR 0xA0})"

definition trim :: "string \<Rightarrow> string" where
  "trim s = rev (dropWhile is_white_space (rev (dropWhile is_white_space s)))"

text \<open>The key of the \<open>seen\<close> set: \<open>`${s.startInMs}|${s.text}`\<close>.\<close>

definition seen_key :: "TranscriptSegment \<Rightarrow> string" where
  "seen_key s = number_to_string (startInMs s) @ ''|'' @ text' s"

text \<open>
  \<^verbatim>\<open>
  const dedup = cleaned.filter((s) => {
    const k = `${s.startInMs}|${s.text}`;
    if (seen.has(k)) return false;
    seen.add(k);
    return true;
  });
  \<close>
  The set \<open>seen\<close> is the state of the loop.
\<close>

fun dedup_filter :: "string set \<Rightarrow> TranscriptSegment list \<Rightarrow> TranscriptSegment list" where
  "dedup_filter seen [] = []"
| "dedup_filter seen (s # ss) =
     (let k = seen_key s in
      if k \<in> seen then dedup_filter seen ss
      else s # dedup_filter (insert k seen) ss)"

text \<open>
  \<open>Array.prototype.sort(cmp)\<close> is stable. It reads the result \<open>v\<close> of \<open>cmp(x, y)\<close> as
  \<open>x\<close> after \<open>y\<close> when \<open>v > 0\<close>, and a \<open>NaN\<close> as \<open>+0\<close>. For a consistent comparator that
  fixes the result. It is computed here by insertion from the right, an element going
  in front of the first one it does not compare greater than. When the comparator is
  not consistent (here: when a start time is \<open>NaN\<close>), ECMAScript leaves the order to the
  implementation, and the model is this insertion.
\<close>

fun insert_by :: "('a \<Rightarrow> 'a \<Rightarrow> number) \<Rightarrow> 'a \<Rightarrow> 'a list \<Rightarrow> 'a list" where
  "insert_by cmp x [] = [x]"
| "insert_by cmp x (y # ys) =
     (if num_positive (cmp x y) then y # insert_by cmp x ys else x # y # ys)"

definition array_sort :: "('a \<Rightarrow> 'a \<Rightarrow> number) \<Rightarrow> 'a list \<Rightarrow> 'a list" where
  "array_sort cmp xs = foldr (insert_by cmp) xs []"

text \<open>
  \<^verbatim>\<open>
  export function normalizeSegments(items: TranscriptSegment[]) {
    const seen = new Set<string>();
    const cleaned = items
      .filter((s) => s && typeof s.text === "string")
      .map((s) => ({ text: s.text.trim(), startInMs: s.startInMs, duration: s.duration }))
      .filter((s) => s.text.length > 0);
    const dedup = cleaned.filter(...);
    return dedup.sort((a, b) => a.startInMs - b.startInMs);
  }
  \<close>
  \<open>trimmed_copy\<close> is the function mapped over the elements that passed the first
  filter (on the others, which it never sees, it is an empty segment).
\<close>

definition has_string_text :: "raw_segment option \<Rightarrow> bool" where
  "has_string_text it = (case it of None \<Rightarrow> False | Some r \<Rightarrow> raw_text r \<noteq> None)"

definition trimmed_copy :: "raw_segment option \<Rightarrow> TranscriptSegment" where
  "trimmed_copy it =
     (case it of
        Some r \<Rightarrow> \<lparr>text' = (case raw_text r of Some t \<Rightarrow> trim t | None \<Rightarrow> []),
                   startInMs = raw_startInMs r, duration = raw_duration r\<rparr>
      | None \<Rightarrow> \<lparr>text' = [], startInMs = Finite 0, duration = Finite 0\<rparr>)"

definition normalizeSegments :: "raw_segment option list \<Rightarrow> TranscriptSegment list" where
  "normalizeSegments items =
     (let cleaned = filter (\<lambda>s. length (text' s) > 0)
                      (map trimmed_copy (filter has_string_text items));
          dedup = dedup_filter {} cleaned
      in array_sort (\<lambda>a b. num_sub (startInMs a) (startInMs b)) dedup)"

text \<open>
  The steps of the normaliser before the sort, as the specification words them: drop
  the segments whose text is not a string or is empty once trimmed, and trim the text
  (\<open>clean_steps\<close>); then keep, of the segments sharing both \<open>startInMs\<close> and \<open>text\<close>, the
  first (\<open>kept_segments\<close>).
\<close>

definition clean_steps :: "raw_segment option list \<Rightarrow> TranscriptSegment list" where
  "clean_steps items =
     List.map_filter
       (\<lambda>it. case it of
                None \<Rightarrow> None
              | Some r \<Rightarrow>
                 (case raw_text r of
                    None \<Rightarrow> None
                  | Some t \<Rightarrow>
                      if trim t = [] then None
                      else Some \<lparr>text' = trim t, startInMs = raw_startInMs r,
                                 duration = raw_duration r\<rparr>))
       items"

fun first_occurrences :: "('a \<Rightarrow> 'k) \<Rightarrow> 'a list \<Rightarrow> 'a list" where
  "first_occurrences f [] = []"
| "first_occurrences f (x # xs) = x # first_occurrences f (filter (\<lambda>y. f y \<noteq> f x) xs)"

definition kept_segments :: "raw_segment option list \<Rightarrow> TranscriptSegment list" where
  "kept_segments items = first_occurrences (\<lambda>s. (startInMs s, text' s)) (clean_steps items)"

text \<open>Sorted ascending by \<open>startInMs\<close>: each segment starts no later than those after it.\<close>

definition sorted_by_start :: "TranscriptSegment list \<Rightarrow> bool" where
  "sorted_by_start segs = sorted_wrt (\<lambda>a b. num_le (startInMs a) (startInMs b)) segs"

section \<open>chooseTrack\<close>

text \<open>
  \<^verbatim>\<open>
  interface CaptionTrack { kind: string; languageCode: string; baseUrl: string; }
  \<close>
  A property read for its truth value (\<open>t.baseUrl\<close>) is true of every string but the empty
  one.
\<close>

record CaptionTrack =
  kind :: string
  languageCode :: string
  baseUrl :: string

text \<open>The object \<open>{ url, lang }\<close> that \<open>chooseTrack\<close> returns.\<close>

record selection =
  url :: string
  lang :: string

text \<open>
  \<open>String.prototype.toLowerCase\<close> below U+0100: the letters A to Z and the capital letters
  of Latin-1 (U+00C0 to U+00DE but the multiplication sign U+00D7) move up by 32.
\<close>

definition to_lower_char :: "char \<Rightarrow> char" where
  "to_lower_char c =
     (let n = (of_char c :: nat) in
      if (65 \<le> n \<and> n \<le> 90) \<or> (192 \<le> n \<and> n \<le> 222 \<and> n \<noteq> 215)
      then char_of (n + 32) else c)"

definition toLowerCase :: "string \<Rightarrow> string" where
  "toLowerCase s = map to_lower_char s"

text \<open>
  \<open>tracks[i]\<close> for a number \<open>i\<close> that is an integer: \<open>undefined\<close> outside the array.
\<close>

definition at_index :: "'a list \<Rightarrow> int \<Rightarrow> 'a option" where
  "at_index xs i = (if 0 \<le> i \<and> i < int (length xs) then Some (xs ! nat i) else None)"

text \<open>
  \<^verbatim>\<open>
  const scan = (list: CaptionTrack[]) => {
    for (const lang of prefs) {
      const t = list.find(
        (x) =>
          x.languageCode === lang ||
          String(x.languageCode || "").toLowerCase().startsWith(lang),
      );
      if (t) return t;
    }
    return undefined;
  };
  \<close>
\<close>

fun scan :: "string list \<Rightarrow> CaptionTrack list \<Rightarrow> CaptionTrack option" where
  "scan [] list = None"
| "scan (lng # prefs) list =
     (case find (\<lambda>x. languageCode x = lng \<or> prefix lng (toLowerCase (languageCode x))) list of
        Some t \<Rightarrow> Some t
      | None \<Rightarrow> scan prefs list)"

text \<open>
  \<^verbatim>\<open>{ url: String(t.baseUrl).replace("&fmt=srv3", ""), lang: t.languageCode }\<close>
\<close>

definition select :: "CaptionTrack \<Rightarrow> selection" where
  "select t = \<lparr>url = replace_first ''&fmt=srv3'' [] (baseUrl t), lang = languageCode t\<rparr>"

text \<open>The loop over \<open>defaultTranslationSourceTrackIndices\<close>.\<close>

fun first_usable :: "CaptionTrack list \<Rightarrow> int list \<Rightarrow> CaptionTrack option" where
  "first_usable tracks [] = None"
| "first_usable tracks (idx # rest) =
     (case at_index tracks idx of
        Some t \<Rightarrow> if baseUrl t \<noteq> [] then Some t else first_usable tracks rest
      | None \<Rightarrow> first_usable tracks rest)"

text \<open>
  \<^verbatim>\<open>
  export function chooseTrack(tracks: CaptionTrack[], preferredLanguages?: string[],
      defaultCaptionTrackIndex?: number, defaultTranslationSourceTrackIndices?: number[]) {
    const manual = tracks.filter((t) => t.kind !== "asr" && t.baseUrl);
    const asr = tracks.filter((t) => t.kind === "asr" && t.baseUrl);
    const prefs = (preferredLanguages || []).map((x) => x.toLowerCase());
    const scan = ...;
    const direct = scan(manual) || scan(asr);
    if (direct) return { url: ..., lang: direct.languageCode };
    if (typeof defaultCaptionTrackIndex === "number" &&
        tracks[defaultCaptionTrackIndex]?.baseUrl) {
      const t = tracks[defaultCaptionTrackIndex];
      return { url: ..., lang: t.languageCode };
    }
    if (Array.isArray(defaultTranslationSourceTrackIndices)) {
      for (const idx of defaultTranslationSourceTrackIndices) {
        if (tracks[idx]?.baseUrl) { const t = tracks[idx]; return { ... }; }
      }
    }
    if (manual[0]) return { ... manual[0] ... };
    if (asr[0]) return { ... asr[0] ... };
    return null;
  }
  \<close>
\<close>

text \<open>
  Every \<open>return\<close> of a selection builds the same object from the track it has chosen;
  \<open>chosen_track\<close> is that track, and \<open>chooseTrack\<close> the object built from it.
\<close>

definition manual_tracks :: "CaptionTrack list \<Rightarrow> CaptionTrack list" where
  "manual_tracks tracks = filter (\<lambda>t. kind t \<noteq> ''asr'' \<and> baseUrl t \<noteq> []) tracks"

definition asr_tracks :: "CaptionTrack list \<Rightarrow> CaptionTrack list" where
  "asr_tracks tracks = filter (\<lambda>t. kind t = ''asr'' \<and> baseUrl t \<noteq> []) tracks"

definition chosen_track ::
  "CaptionTrack list \<Rightarrow> string list option \<Rightarrow> int option \<Rightarrow> int list option
     \<Rightarrow> CaptionTrack option" where
  "chosen_track tracks preferredLanguages defaultCaptionTrackIndex
       defaultTranslationSourceTrackIndices =
     (let manual = manual_tracks tracks;
          asr = asr_tracks tracks;
          prefs = map toLowerCase (case preferredLanguages of None \<Rightarrow> [] | Some ps \<Rightarrow> ps);
          direct = (case scan prefs manual of Some t \<Rightarrow> Some t | None \<Rightarrow> scan prefs asr)
      in case direct of
           Some t \<Rightarrow> Some t
         | None \<Rightarrow>
            (case (case Option.bind defaultCaptionTrackIndex (at_index tracks) of
                     Some t \<Rightarrow> if baseUrl t \<noteq> [] then Some t else None
                   | None \<Rightarrow> None) of
               Some t \<Rightarrow> Some t
             | None \<Rightarrow>
                (case (case defaultTranslationSourceTrackIndices of
                         Some idxs \<Rightarrow> first_usable tracks idxs
                       | None \<Rightarrow> None) of
                   Some t \<Rightarrow> Some t
                 | None \<Rightarrow>
                    (case manual of
                       t # _ \<Rightarrow> Some t
                     | [] \<Rightarrow> (case asr of t # _ \<Rightarrow> Some t | [] \<Rightarrow> None)))))"

definition chooseTrack ::
  "CaptionTrack list \<Rightarrow> string list option \<Rightarrow> int option \<Rightarrow> int list option
     \<Rightarrow> selection option" where
  "chooseTrack tracks preferredLanguages defaultCaptionTrackIndex
       defaultTranslationSourceTrackIndices =
     map_option select
       (chosen_track tracks preferredLanguages defaultCaptionTrackIndex
          defaultTranslationSourceTrackIndices)"

text \<open>
  A language code matches a preference, in the specification's words, when it is the
  preference or when the preference is a prefix of it, letter case set aside.
\<close>

definition lang_match :: "string \<Rightarrow> string \<Rightarrow> bool" where
  "lang_match pref code = (code = pref \<or> prefix (toLowerCase pref) (toLowerCase code))"

section \<open>Regular expressions\<close>

text \<open>
  The regular expressions of the source are matched by backtracking. A matcher takes the
  text at the current position and returns what is left of it after each way of
  matching there, in the order in which the backtracking tries them: the match found
  is the head of the list. A matcher with capture groups returns the groups with
  what is left.
\<close>

text \<open>A literal text.\<close>

definition lit :: "string \<Rightarrow> string \<Rightarrow> string list" where
  "lit l s = (if prefix l s then [drop (length l) s] else [])"

text \<open>\<open>ab\<close>: \<open>a\<close>, then \<open>b\<close> on what it leaves.\<close>

definition seq :: "(string \<Rightarrow> string list) \<Rightarrow> (string \<Rightarrow> string list) \<Rightarrow> string \<Rightarrow> string list" where
  "seq a b s = List.bind (a s) b"

text \<open>\<open>a|b\<close>: the ways of \<open>a\<close> before those of \<open>b\<close>.\<close>

definition alt :: "(string \<Rightarrow> string list) \<Rightarrow> (string \<Rightarrow> string list) \<Rightarrow> string \<Rightarrow> string list" where
  "alt a b s = a s @ b s"

text \<open>\<open>a?\<close>, greedy: the ways of \<open>a\<close> before the empty match.\<close>

definition opt :: "(string \<Rightarrow> string list) \<Rightarrow> string \<Rightarrow> string list" where
  "opt a s = a s @ [s]"

text \<open>
  \<open>[class]*\<close>, greedy, with the text it matched: the longest run first, the empty run last.
  \<open>[class]+\<close> is the same without the empty run.
\<close>

fun star :: "(char \<Rightarrow> bool) \<Rightarrow> string \<Rightarrow> (string \<times> string) list" where
  "star P [] = [([], [])]"
| "star P (c # cs) =
     (if P c then map (\<lambda>(m, r). (c # m, r)) (star P cs) else []) @ [([], c # cs)]"

definition plus :: "(char \<Rightarrow> bool) \<Rightarrow> string \<Rightarrow> (string \<times> string) list" where
  "plus P s = filter (\<lambda>(m, r). m \<noteq> []) (star P s)"

text \<open>\<open>[class]*?\<close>, lazy: the empty run first, the longest run last.\<close>

fun lazy_star :: "(char \<Rightarrow> bool) \<Rightarrow> string \<Rightarrow> (string \<times> string) list" where
  "lazy_star P [] = [([], [])]"
| "lazy_star P (c # cs) =
     ([], c # cs) # (if P c then map (\<lambda>(m, r). (c # m, r)) (lazy_star P cs) else [])"

text \<open>
  \<open>s.match(re)\<close> without the \<open>g\<close> flag: the start positions are tried from left to right,
  and the result is the first match at the first position that has one.
\<close>

fun re_search :: "(string \<Rightarrow> ('a \<times> string) list) \<Rightarrow> string \<Rightarrow> 'a option" where
  "re_search m [] = (case m [] of (g, r) # _ \<Rightarrow> Some g | [] \<Rightarrow> None)"
| "re_search m (c # cs) = (case m (c # cs) of (g, r) # _ \<Rightarrow> Some g | [] \<Rightarrow> re_search m cs)"

text \<open>
  \<open>s.matchAll(re)\<close>, \<open>s.replace(re, ...)\<close> with the \<open>g\<close> flag: the matches from left to
  right, each search starting where the match before it ended (one position further
  after an empty match).
\<close>

function re_match_all :: "(string \<Rightarrow> ('a \<times> string) list) \<Rightarrow> string \<Rightarrow> 'a list" where
  "re_match_all m s =
     (case m s of
        (g, r) # _ \<Rightarrow>
          g # (if length r < length s then re_match_all m r
               else case s of [] \<Rightarrow> [] | _ # s' \<Rightarrow> re_match_all m s')
      | [] \<Rightarrow> (case s of [] \<Rightarrow> [] | _ # s' \<Rightarrow> re_match_all m s'))"
  by pat_completeness auto
termination
  by (relation "measure (\<lambda>(m, s). length s)") auto

declare re_match_all.simps [simp del]

text \<open>The classes \<open>\w\<close>, \<open>\d\<close>, \<open>\s\<close> and \<open>[\w-]\<close>.\<close>

definition is_word_char :: "char \<Rightarrow> bool" where
  "is_word_char c =
     (let n = (of_char c :: nat) in
      (48 \<le> n \<and> n \<le> 57) \<or> (65 \<le> n \<and> n \<le> 90) \<or> n = 95 \<or> (97 \<le> n \<and> n \<le> 122))"

definition is_digit :: "char \<Rightarrow> bool" where
  "is_digit c = (let n = (of_char c :: nat) in 48 \<le> n \<and> n \<le> 57)"

definition is_id_char :: "char \<Rightarrow> bool" where
  "is_id_char c = (is_word_char c \<or> c = CHR ''-'')"

section \<open>extractVideoId\<close>

text \<open>
  \<^verbatim>\<open>
  export function extractVideoId(url: string) {
    const match = url.match(
      /(?:https?:\/\/)?(?:www\.)?(?:youtube\.com\/(?:watch\?v=|embed\/|v\/|live\/)|youtu\.be\/)([\w-]{11})/,
    );
    return match ? match[1] : null;
  }
  \<close>
  \<open>video_url_marker\<close> is the expression up to the group, \<open>id_group\<close> the group
  \<open>([\w-]{11})\<close>.
\<close>

definition video_url_marker :: "string \<Rightarrow> string list" where
  "video_url_marker =
     seq (opt (seq (lit ''http'') (seq (opt (lit ''s'')) (lit ''://''))))
    (seq (opt (lit ''www.''))
         (alt (seq (lit ''youtube.com/'')
                   (alt (lit ''watch?v='') (alt (lit ''embed/'') (alt (lit ''v/'') (lit ''live/'')))))
              (lit ''youtu.be/'')))"

definition id_group :: "string \<Rightarrow> (string \<times> string) list" where
  "id_group s =
     (if 11 \<le> length s \<and> list_all is_id_char (take 11 s) then [(take 11 s, drop 11 s)] else [])"

definition video_id_at :: "string \<Rightarrow> (string \<times> string) list" where
  "video_id_at s = List.bind (video_url_marker s) id_group"

definition extractVideoId :: "string \<Rightarrow> string option" where
  "extractVideoId u = re_search video_id_at u"

text \<open>
  The five markers of the expression, \<open>youtube.com/watch?v=\<close> to \<open>youtu.be/\<close>, each
  without its first letter \<open>y\<close>.
\<close>

definition marker_tails :: "string list" where
  "marker_tails = [''outube.com/watch?v='', ''outube.com/embed/'', ''outube.com/v/'',
              ''outube.com/live/'', ''outu.be/'']"

section \<open>parseSegments\<close>

text \<open>
  \<open>re_replace_all\<close> is \<open>s.replace(re, rep)\<close> with the \<open>g\<close> flag: the text between the
  matches is kept, each match gives way to \<open>rep\<close>.
\<close>

function re_replace_all :: "(string \<Rightarrow> ('a \<times> string) list) \<Rightarrow> string \<Rightarrow> string \<Rightarrow> string" where
  "re_replace_all m rep s =
     (case m s of
        (g, r) # _ \<Rightarrow>
          rep @ (if length r < length s then re_replace_all m rep r
                 else case s of [] \<Rightarrow> [] | c # s' \<Rightarrow> c # re_replace_all m rep s')
      | [] \<Rightarrow> (case s of [] \<Rightarrow> [] | c # s' \<Rightarrow> c # re_replace_all m rep s'))"
  by pat_completeness auto
termination
  by (relation "measure (\<lambda>(m, rep, s). length s)") auto

declare re_replace_all.simps [simp del]

text \<open>
  \<open>\b\<close> between the character before the position and the text at it: exactly one of
  the two sides is a word character.
\<close>

definition word_boundary :: "char \<Rightarrow> string \<Rightarrow> string list" where
  "word_boundary prev s =
     (if is_word_char prev \<noteq> (case s of [] \<Rightarrow> False | c # _ \<Rightarrow> is_word_char c)
      then [s] else [])"

text \<open>
  \<^verbatim>\<open>/<text[^>]*start="([^"]+)"[^>]*dur="([^"]+)"[^>]*>([\s\S]*?)<\/text>/g\<close>
  at one position: the three groups and what is left.
\<close>

definition text_element_at :: "string \<Rightarrow> ((string \<times> string \<times> string) \<times> string) list" where
  \<open>text_element_at s = do {
     r0 \<leftarrow> lit ''<text'' s;
     (_, r1) \<leftarrow> star (\<lambda>c. c \<noteq> CHR ''>'') r0;
     r2 \<leftarrow> lit ''start="'' r1;
     (g1, r3) \<leftarrow> plus (\<lambda>c. c \<noteq> CHR 0x22) r2;
     r4 \<leftarrow> lit ''"'' r3;
     (_, r5) \<leftarrow> star (\<lambda>c. c \<noteq> CHR ''>'') r4;
     r6 \<leftarrow> lit ''dur="'' r5;
     (g2, r7) \<leftarrow> plus (\<lambda>c. c \<noteq> CHR 0x22) r6;
     r8 \<leftarrow> lit ''"'' r7;
     (_, r9) \<leftarrow> star (\<lambda>c. c \<noteq> CHR ''>'') r8;
     r10 \<leftarrow> lit ''>'' r9;
     (g3, r11) \<leftarrow> lazy_star (\<lambda>c. True) r10;
     r12 \<leftarrow> lit ''</text>'' r11;
     [((g1, g2, g3), r12)]
   }\<close>

text \<open>
  \<^verbatim>\<open>
  export function parseTranscriptTexts(xml: string) {
    const segments = [];
    const textMatches = xml.matchAll(/<text ... <\/text>/g);
    for (const match of textMatches) {
      const text = decodeHtml(String(match[3] || "")).trim();
      if (text) {
        const startMs = Math.round(Number(match[1] || 0) * 1000);
        const durationMs = Math.round(Number(match[2] || 0) * 1000);
        segments.push({ text, startInMs: startMs, duration: durationMs });
      }
    }
    return segments;
  }
  \<close>
  \<open>Math.round(Number(x) * 1000)\<close> is arithmetic on doubles; the conversion is the
  parameter \<open>to_ms\<close>, of a group (which is never empty) to the number it gives: an
  integer, an infinity, or \<open>NaN\<close> when the group is not a numeric literal.
\<close>

definition parseTranscriptTexts :: "(string \<Rightarrow> number) \<Rightarrow> string \<Rightarrow> TranscriptSegment list" where
  "parseTranscriptTexts to_ms xml =
     concat (map (\<lambda>(g1, g2, g3).
                    let txt = trim (decodeHtml g3) in
                    if txt \<noteq> []
                    then [\<lparr>text' = txt, startInMs = to_ms g1, duration = to_ms g2\<rparr>]
                    else [])
                 (re_match_all text_element_at xml))"

text \<open>
  \<^verbatim>\<open>/<p[^>]*\bt="(\d+)"[^>]*\bd="(\d+)"[^>]*>([\s\S]*?)<\/p>/g\<close> at one position. The
  character before each \<open>\b\<close> is the last one matched so far.
\<close>

definition paragraph_at :: "string \<Rightarrow> ((string \<times> string \<times> string) \<times> string) list" where
  \<open>paragraph_at s = do {
     r0 \<leftarrow> lit ''<p'' s;
     (a, r1) \<leftarrow> star (\<lambda>c. c \<noteq> CHR ''>'') r0;
     r1' \<leftarrow> word_boundary (last (''<p'' @ a)) r1;
     r2 \<leftarrow> lit ''t="'' r1';
     (g1, r3) \<leftarrow> plus is_digit r2;
     r4 \<leftarrow> lit ''"'' r3;
     (b, r5) \<leftarrow> star (\<lambda>c. c \<noteq> CHR ''>'') r4;
     r5' \<leftarrow> word_boundary (last (''"'' @ b)) r5;
     r6 \<leftarrow> lit ''d="'' r5';
     (g2, r7) \<leftarrow> plus is_digit r6;
     r8 \<leftarrow> lit ''"'' r7;
     (_, r9) \<leftarrow> star (\<lambda>c. c \<noteq> CHR ''>'') r8;
     r10 \<leftarrow> lit ''>'' r9;
     (g3, r11) \<leftarrow> lazy_star (\<lambda>c. True) r10;
     r12 \<leftarrow> lit ''</p>'' r11;
     [((g1, g2, g3), r12)]
   }\<close>

text \<open>\<^verbatim>\<open>/<[^>]+>/g\<close> at one position.\<close>

definition tag_at :: "string \<Rightarrow> (unit \<times> string) list" where
  "tag_at s = do {
     r0 \<leftarrow> lit ''<'' s;
     (_, r1) \<leftarrow> plus (\<lambda>c. c \<noteq> CHR ''>'') r0;
     r2 \<leftarrow> lit ''>'' r1;
     [((), r2)]
   }"

text \<open>
  \<^verbatim>\<open>
  export function parseTimedtext(xml: string) {
    const segments = [];
    const paragraphMatches = xml.matchAll(/<p ... <\/p>/g);
    for (const match of paragraphMatches) {
      const start = Number(match[1] || 0);
      const duration = Number(match[2] || 0);
      const inner = String(match[3] || "");
      const text = decodeHtml(inner.replace(/<[^>]+>/g, "")).trim();
      if (text) { segments.push({ text, startInMs: start, duration }); }
    }
    return segments;
  }
  \<close>
  \<open>Number\<close> of a group \<open>\d+\<close> is the number its digits stand for when that is at most
  \<open>2^53 = 9007199254740992\<close> (every such integer is a double); above, it is the nearest
  double or \<open>Infinity\<close>, given by the parameter \<open>big\<close>.
\<close>

definition number_of_digits :: "(string \<Rightarrow> number) \<Rightarrow> string \<Rightarrow> number" where
  "number_of_digits big g =
     (let n = int (digit_val g) in
      if n \<le> 9007199254740992 then Finite n else big g)"

definition parseTimedtext :: "(string \<Rightarrow> number) \<Rightarrow> string \<Rightarrow> TranscriptSegment list" where
  "parseTimedtext big xml =
     concat (map (\<lambda>(g1, g2, g3).
                    let start = number_of_digits big g1;
                        dur = number_of_digits big g2;
                        txt = trim (decodeHtml (re_replace_all tag_at [] g3)) in
                    if txt \<noteq> []
                    then [\<lparr>text' = txt, startInMs = start, duration = dur\<rparr>]
                    else [])
                 (re_match_all paragraph_at xml))"

text \<open>
  \<^verbatim>\<open>
  export function parseSegments(xml: string) {
    const t1 = parseTranscriptTexts(xml);
    if (t1.length) return t1;
    return parseTimedtext(xml);
  }
  \<close>
\<close>

definition parseSegments ::
  "(string \<Rightarrow> number) \<Rightarrow> (string \<Rightarrow> number) \<Rightarrow> string \<Rightarrow> TranscriptSegment list" where
  "parseSegments to_ms big xml =
     (let t1 = parseTranscriptTexts to_ms xml in
      if length t1 \<noteq> 0 then t1 else parseTimedtext big xml)"

section \<open>The network\<close>

text \<open>
  \<open>fetch\<close> is the environment: a request either fails (the promise is rejected) or yields
  a response with a status, and a body that \<open>res.text()\<close> and \<open>res.json()\<close> read or fail
  to read. A run makes at most four requests, one at each place of the source that
  calls the network: the watch page (0), the watch page again with the consent cookie
  (1), the player endpoint (2) and the caption document (3). The environment answers
  each of them on its own, so it is a function of that number and of the request: any
  behaviour of the network during a run is one such function.
\<close>

record request =
  req_url :: string
  req_method :: string
  req_headers :: "(string \<times> string) list"
  req_body :: "string option"

text \<open>
  What the source reads of the player response \<open>data\<close>, each property behind a \<open>?.\<close>
  being optional; \<open>data\<close> itself may be \<open>null\<close>.
\<close>

record audio_track =
  defaultCaptionTrackIndex :: "int option"

record tracklist_renderer =
  captionTracks :: "CaptionTrack list option"
  audioTracks :: "audio_track list option"
  defaultTranslationSourceTrackIndices :: "int list option"

record captions_data =
  playerCaptionsTracklistRenderer :: "tracklist_renderer option"

record player_response =
  playabilityStatus :: "PlayabilityStatus option"
  captions :: "captions_data option"

record response =
  res_status :: nat
  res_text :: "exn + string"
  res_json :: "exn + player_response option"

definition res_ok :: "response \<Rightarrow> bool" where
  "res_ok res = (200 \<le> res_status res \<and> res_status res \<le> 299)"

text \<open>
  \<^verbatim>\<open>
  export async function fetchText(url: string, headers = {}) {
    const res = await fetch(url, { headers });
    if (!res.ok) throw new Error(String(res.status));
    return res.text();
  }
  \<close>
\<close>

definition fetchText ::
  "(nat \<Rightarrow> request \<Rightarrow> exn + response) \<Rightarrow> nat \<Rightarrow> string \<Rightarrow> (string \<times> string) list
     \<Rightarrow> exn + string" where
  "fetchText fetch n u headers =
     (case fetch n \<lparr>req_url = u, req_method = ''GET'', req_headers = headers, req_body = None\<rparr> of
        Inl e \<Rightarrow> Inl e
      | Inr res \<Rightarrow>
          if \<not> res_ok res then Inl (Error (int_to_string (int (res_status res))))
          else res_text res)"

text \<open>\<^verbatim>\<open>/name="v" value="(.*?)"/\<close> at one position; \<open>.\<close> is any character but a line end.\<close>

definition consent_value_at :: "string \<Rightarrow> (string \<times> string) list" where
  \<open>consent_value_at s = do {
     r0 \<leftarrow> lit ''name="v" value="'' s;
     (g, r1) \<leftarrow> lazy_star (\<lambda>c. c \<noteq> CHR 0x0A \<and> c \<noteq> CHR 0x0D) r0;
     r2 \<leftarrow> lit ''"'' r1;
     [(g, r2)]
   }\<close>

text \<open>
  \<^verbatim>\<open>
  export async function fetchWatchHtml(videoId: string, fetchImpl = fetchText) {
    const url = `https://www.youtube.com/watch?v=${videoId}`;
    let html = await fetchImpl(url, { "Accept-Language": "en-US" });
    if (html.includes('action="https://consent.youtube.com/s"')) {
      const v = html.match(/name="v" value="(.*?)"/);
      if (!v) throw new Error("consent_cookie_create_failed");
      html = await fetchImpl(url, { "Accept-Language": "en-US", Cookie: `CONSENT=YES+${v[1]}` });
      if (html.includes('action="https://consent.youtube.com/s"'))
        throw new Error("consent_cookie_invalid");
    }
    return html;
  }
  \<close>
\<close>

definition fetchWatchHtml ::
  "(nat \<Rightarrow> request \<Rightarrow> exn + response) \<Rightarrow> string \<Rightarrow> exn + string" where
  \<open>fetchWatchHtml fetch videoId =
     (let u = ''https://www.youtube.com/watch?v='' @ videoId in
      case fetchText fetch 0 u [(''Accept-Language'', ''en-US'')] of
        Inl e \<Rightarrow> Inl e
      | Inr html \<Rightarrow>
          if str_includes html ''action="https://consent.youtube.com/s"'' then
            (case re_search consent_value_at html of
               None \<Rightarrow> Inl (Error ''consent_cookie_create_failed'')
             | Some v \<Rightarrow>
                (case fetchText fetch 1 u
                        [(''Accept-Language'', ''en-US''), (''Cookie'', ''CONSENT=YES+'' @ v)] of
                   Inl e \<Rightarrow> Inl e
                 | Inr html2 \<Rightarrow>
                     if str_includes html2 ''action="https://consent.youtube.com/s"''
                     then Inl (Error ''consent_cookie_invalid'')
                     else Inr html2))
          else Inr html)\<close>

text \<open>
  \<^verbatim>\<open>
  export function extractInnertubeApiKey(html: string) {
    const m = html.match(/"INNERTUBE_API_KEY":\s*"([a-zA-Z0-9_-]+)"/);
    return m ? m[1] : null;
  }
  \<close>
\<close>

definition api_key_at :: "string \<Rightarrow> (string \<times> string) list" where
  \<open>api_key_at s = do {
     r0 \<leftarrow> lit ''"INNERTUBE_API_KEY":'' s;
     (_, r1) \<leftarrow> star is_white_space r0;
     r2 \<leftarrow> lit ''"'' r1;
     (g, r3) \<leftarrow> plus is_id_char r2;
     r4 \<leftarrow> lit ''"'' r3;
     [(g, r4)]
   }\<close>

definition extractInnertubeApiKey :: "string \<Rightarrow> string option" where
  "extractInnertubeApiKey html = re_search api_key_at html"

text \<open>
  \<^verbatim>\<open>
  export async function fetchInnertubePlayer(apiKey: string, videoId: string) {
    const url = `https://www.youtube.com/youtubei/v1/player?key=${apiKey}`;
    const res = await fetch(url, {
      method: "POST",
      headers: { "Content-Type": "application/json", "Accept-Language": "en-US" },
      body: JSON.stringify({
        context: { client: { clientName: "ANDROID", clientVersion: "20.10.38" } },
        videoId,
      }),
    });
    if (res.status === 429) throw new Error("ip_blocked");
    if (!res.ok) throw new Error(`yt_request_failed_${res.status}`);
    return res.json();
  }
  \<close>
  The identifier is made of letters, digits, \<open>_\<close> and \<open>-\<close>, which \<open>JSON.stringify\<close> copies.
\<close>

definition fetchInnertubePlayer ::
  "(nat \<Rightarrow> request \<Rightarrow> exn + response) \<Rightarrow> string \<Rightarrow> string
     \<Rightarrow> exn + player_response option" where
  \<open>fetchInnertubePlayer fetch apiKey videoId =
     (case fetch 2 \<lparr>req_url = ''https://www.youtube.com/youtubei/v1/player?key='' @ apiKey,
                  req_method = ''POST'',
                  req_headers = [(''Content-Type'', ''application/json''),
                                 (''Accept-Language'', ''en-US'')],
                  req_body = Some (''{"context":{"client":{"clientName":"ANDROID",''
                                   @ ''"clientVersion":"20.10.38"}},"videoId":"''
                                   @ videoId @ ''"}'')\<rparr> of
        Inl e \<Rightarrow> Inl e
      | Inr res \<Rightarrow>
          if res_status res = 429 then Inl (Error ''ip_blocked'')
          else if \<not> res_ok res
            then Inl (Error (''yt_request_failed_'' @ int_to_string (int (res_status res))))
          else res_json res)\<close>

section \<open>transcriptYt\<close>

text \<open>
  \<^verbatim>\<open>
  export const logError = (category: string, message: string) => {
    console.error(`[${category}] ${message}`);
  };
  \<close>
  The line written to the console; the console is the only state the module writes.
\<close>

definition logError :: "string \<Rightarrow> string \<Rightarrow> string" where
  "logError category message = ''['' @ category @ ''] '' @ message"

record TranscriptYtArgs =
  videoUrl :: string
  preferredLanguages :: "string list option"

text \<open>
  The body of the \<open>try\<close> block of \<open>transcriptYt\<close>: it throws, or it returns a value
  after writing lines to the console.
  \<^verbatim>\<open>
    const id = extractVideoId(args.videoUrl);
    if (!id) { logError("invalid_url", "unable_to_extract_video_id"); return null; }
    const html = await fetchWatchHtml(id);
    const apiKey = extractInnertubeApiKey(html);
    if (!apiKey) { logError("inaccessible", "innertube_api_key_not_found"); return null; }
    const data = await fetchInnertubePlayer(apiKey, id);
    assertPlayability(data?.playabilityStatus);
    const tracks = data?.captions?.playerCaptionsTracklistRenderer?.captionTracks || [];
    const audioTracks = data?.captions?.playerCaptionsTracklistRenderer?.audioTracks || [];
    const defaultCaptionTrackIndex =
      typeof audioTracks?.[0]?.defaultCaptionTrackIndex === "number"
        ? audioTracks[0].defaultCaptionTrackIndex : undefined;
    const defaultTranslationSourceTrackIndices =
      data?.captions?.playerCaptionsTracklistRenderer?.defaultTranslationSourceTrackIndices;
    if (!Array.isArray(tracks) || tracks.length === 0) {
      logError("no_captions", "no_caption_tracks_found"); return null; }
    const picked = chooseTrack(tracks, args.preferredLanguages, defaultCaptionTrackIndex,
      defaultTranslationSourceTrackIndices);
    if (!picked) { logError("no_captions", "no_suitable_track_found"); return null; }
    const xml = await fetch(picked.url, { headers: { "Accept-Language": "en-US" } })
      .then((r) => { if (!r.ok) throw new Error(`yt_request_failed_${r.status}`);
                     return r.text(); });
    const segments = normalizeSegments(parseSegments(xml));
    if (!segments.length) { logError("no_captions", "no_segments_after_parsing"); return null; }
    return segments;
  \<close>
\<close>

definition try_block ::
  "(string \<Rightarrow> number) \<Rightarrow> (string \<Rightarrow> number) \<Rightarrow> (nat \<Rightarrow> request \<Rightarrow> exn + response)
     \<Rightarrow> TranscriptYtArgs \<Rightarrow> exn + (string list \<times> TranscriptSegment list option)" where
  "try_block to_ms big fetch args =
     (case extractVideoId (videoUrl args) of
        None \<Rightarrow> Inr ([logError ''invalid_url'' ''unable_to_extract_video_id''], None)
      | Some ident \<Rightarrow>
     (case fetchWatchHtml fetch ident of
        Inl e \<Rightarrow> Inl e
      | Inr html \<Rightarrow>
     (case extractInnertubeApiKey html of
        None \<Rightarrow> Inr ([logError ''inaccessible'' ''innertube_api_key_not_found''], None)
      | Some apiKey \<Rightarrow>
     (case fetchInnertubePlayer fetch apiKey ident of
        Inl e \<Rightarrow> Inl e
      | Inr data \<Rightarrow>
     (case assertPlayability (Option.bind data playabilityStatus) of
        Inl e \<Rightarrow> Inl e
      | Inr _ \<Rightarrow>
     (let renderer = Option.bind (Option.bind data captions) playerCaptionsTracklistRenderer;
          tracks = (case Option.bind renderer captionTracks of None \<Rightarrow> [] | Some ts \<Rightarrow> ts);
          audio = (case Option.bind renderer audioTracks of None \<Rightarrow> [] | Some as \<Rightarrow> as);
          default_index = (case audio of [] \<Rightarrow> None | a # _ \<Rightarrow> defaultCaptionTrackIndex a);
          default_sources = Option.bind renderer defaultTranslationSourceTrackIndices
      in
      if length tracks = 0
      then Inr ([logError ''no_captions'' ''no_caption_tracks_found''], None)
      else
     (case chooseTrack tracks (preferredLanguages args) default_index default_sources of
        None \<Rightarrow> Inr ([logError ''no_captions'' ''no_suitable_track_found''], None)
      | Some picked \<Rightarrow>
     (case fetch 3 \<lparr>req_url = url picked, req_method = ''GET'',
                  req_headers = [(''Accept-Language'', ''en-US'')], req_body = None\<rparr> of
        Inl e \<Rightarrow> Inl e
      | Inr r \<Rightarrow>
          if \<not> res_ok r
          then Inl (Error (''yt_request_failed_'' @ int_to_string (int (res_status r))))
          else
     (case res_text r of
        Inl e \<Rightarrow> Inl e
      | Inr xml \<Rightarrow>
          let segments = normalizeSegments (map typed (parseSegments to_ms big xml)) in
          if length segments = 0
          then Inr ([logError ''no_captions'' ''no_segments_after_parsing''], None)
          else Inr ([], Some segments))))))))))"

text \<open>
  The \<open>catch\<close> block:
  \<^verbatim>\<open>
    const msg = err instanceof Error ? String(err.message) : "";
    if (msg.includes("yt_request_failed_") || msg === "ip_blocked")
      logError("network_error", msg);
    else if (msg === "video_unavailable" || msg === "video_unplayable" ||
             msg === "age_restricted" || msg === "request_blocked")
      logError("inaccessible", msg);
    else logError("other_error", msg || "unexpected_error");
    return null;
  \<close>
\<close>

definition catch_block :: "exn \<Rightarrow> string list \<times> TranscriptSegment list option" where
  "catch_block err =
     (let msg = (case err of Error m \<Rightarrow> m | NotAnError \<Rightarrow> []) in
      if str_includes msg ''yt_request_failed_'' \<or> msg = ''ip_blocked''
        then ([logError ''network_error'' msg], None)
      else if msg = ''video_unavailable'' \<or> msg = ''video_unplayable''
              \<or> msg = ''age_restricted'' \<or> msg = ''request_blocked''
        then ([logError ''inaccessible'' msg], None)
      else ([logError ''other_error'' (if msg = [] then ''unexpected_error'' else msg)], None))"

text \<open>
  \<open>transcriptYt\<close> is an \<open>async\<close> function: its promise is fulfilled with a value (\<open>Inr\<close>)
  or rejected with an exception (\<open>Inl\<close>). The result is paired with the lines written
  to the console.
\<close>

definition transcriptYt ::
  "(string \<Rightarrow> number) \<Rightarrow> (string \<Rightarrow> number) \<Rightarrow> (nat \<Rightarrow> request \<Rightarrow> exn + response)
     \<Rightarrow> TranscriptYtArgs \<Rightarrow> string list \<times> (exn + TranscriptSegment list option)" where
  "transcriptYt to_ms big fetch args =
     (case try_block to_ms big fetch args of
        Inr (lines, result) \<Rightarrow> (lines, Inr result)
      | Inl err \<Rightarrow> (case catch_block err of (lines, result) \<Rightarrow> (lines, Inr result)))"

text \<open>The five categories of the specification.\<close>

definition categories :: "string list" where
  "categories = [''invalid_url'', ''inaccessible'', ''no_captions'', ''network_error'',
                 ''other_error'']"

section \<open>The request handler\<close>

text \<open>
  \<^verbatim>\<open>
  import { transcriptYt, lastError } from "../../lib/fetch-youtube";

  export const GET: APIRoute = async ({ request }) => {
    const url = new URL(request.url);
    const videoUrl = url.searchParams.get("videoUrl");
    if (!videoUrl) {
      return new Response(JSON.stringify({ message: "Video URL is required" }), { status: 400, ... });
    }
    const transcription = await transcriptYt({ videoUrl, preferredLanguages: ["pt", "en"] });
    let textOnlyTranscription = "";
    for (const track of transcription || []) { textOnlyTranscription += ` ${track.text}`; }
    if (!textOnlyTranscription) {
      return new Response(JSON.stringify({
          message: "No transcript available.",
          reason: lastError?.message ?? null,
          category: lastError?.category ?? null,
        }), { status: 404, ... });
    }
    return new Response(JSON.stringify({ transcription: textOnlyTranscription }), { status: 200, ... });
  };
  \<close>
  \<open>fetch-youtube.ts\<close> declares no \<open>lastError\<close>, and none of its functions writes one:
  what the imported name stands for is the parameter \<open>lastError\<close> of the model, \<open>None\<close>
  when the import yields \<open>undefined\<close>.
\<close>

record ErrorRecord =
  category :: string
  message :: string

datatype response_body =
    Message string
  | No_transcript "string option" "string option"
  | Transcription string

record http_response =
  http_status :: nat
  http_body :: response_body

definition GET ::
  "(string \<Rightarrow> number) \<Rightarrow> (string \<Rightarrow> number) \<Rightarrow> (nat \<Rightarrow> request \<Rightarrow> exn + response)
     \<Rightarrow> ErrorRecord option \<Rightarrow> string option \<Rightarrow> exn + http_response" where
  "GET to_ms big fetch lastError videoUrl_param =
     (case videoUrl_param of
        None \<Rightarrow> Inr \<lparr>http_status = 400, http_body = Message ''Video URL is required''\<rparr>
      | Some v \<Rightarrow>
          if v = [] then Inr \<lparr>http_status = 400, http_body = Message ''Video URL is required''\<rparr>
          else
            (case snd (transcriptYt to_ms big fetch
                         \<lparr>videoUrl = v, preferredLanguages = Some [''pt'', ''en'']\<rparr>) of
               Inl e \<Rightarrow> Inl e
             | Inr transcription \<Rightarrow>
                 let textOnlyTranscription =
                       concat (map (\<lambda>track. '' '' @ text' track)
                                 (case transcription of None \<Rightarrow> [] | Some ts \<Rightarrow> ts)) in
                 if textOnlyTranscription = []
                 then Inr \<lparr>http_status = 404,
                           http_body = No_transcript (map_option message lastError)
                                                     (map_option category lastError)\<rparr>
                 else Inr \<lparr>http_status = 200,
                           http_body = Transcription textOnlyTranscription\<rparr>))"

section \<open>An example run\<close>

text \<open>
  A network for the examples below: the watch page carries an API key, the player
  offers one auto-generated English track, and the caption document is \<open>xml\<close>; every
  other request is answered 404.
\<close>

definition example_fetch :: "string \<Rightarrow> nat \<Rightarrow> request \<Rightarrow> exn + response" where
  \<open>example_fetch xml n rq =
     (if n = 0 then
        Inr \<lparr>res_status = 200, res_text = Inr ''<html>"INNERTUBE_API_KEY":"k-1"</html>'',
             res_json = Inl (Error ''Unexpected token'')\<rparr>
      else if n = 2 then
        Inr \<lparr>res_status = 200, res_text = Inl (Error ''body used''),
             res_json = Inr (Some
               \<lparr>playabilityStatus = Some \<lparr>status = ''OK'', reason = None\<rparr>,
                captions = Some \<lparr>playerCaptionsTracklistRenderer = Some
                  \<lparr>captionTracks = Some [\<lparr>kind = ''asr'', languageCode = ''en'',
                                           baseUrl = ''https://c/t&fmt=srv3''\<rparr>],
                   audioTracks = None,
                   defaultTranslationSourceTrackIndices = None\<rparr>\<rparr>\<rparr>)\<rparr>
      else if n = 3 \<and> req_url rq = ''https://c/t'' then
        Inr \<lparr>res_status = 200, res_text = Inr xml,
             res_json = Inl (Error ''Unexpected token'')\<rparr>
      else
        Inr \<lparr>res_status = 404, res_text = Inr [], res_json = Inl (Error ''Unexpected token'')\<rparr>)\<close>

text \<open>
  \<open>Math.round(Number(g) * 1000)\<close> at the attribute values of the example documents:
  3000 at \<open>3\<close>, 1000 at \<open>1\<close>, and \<open>NaN\<close> at \<open>x\<close>, which is no numeric literal.
\<close>

definition example_to_ms :: "string \<Rightarrow> number" where
  "example_to_ms g =
     (if g = ''3'' then Finite 3000 else if g = ''1'' then Finite 1000 else NaN)"

definition example_args :: TranscriptYtArgs where
  "example_args = \<lparr>videoUrl = ''https://youtu.be/dQw4w9WgXcQ'',
                    preferredLanguages = Some [''pt'', ''en'']\<rparr>"

section \<open>Properties of the playability guard\<close>

text \<open>
  C5 (as stated, refuted). The claim lets only a missing status and \<open>OK\<close> pass and
  sends every other status to a failure. The empty status string is present and is
  not \<open>OK\<close>, yet the guard returns normally on it.
\<close>

theorem assertPlayability_empty_status_passes:
  "assertPlayability (Some \<lparr>status = [], reason = None\<rparr>) = Inr ()
   \<and> guard_rules_stated (Some \<lparr>status = [], reason = None\<rparr>)
       = Inl (Error ''video_unplayable'')"
  by (simp add: assertPlayability_def guard_rules_stated_def)

text \<open>
  C5 (amended). For every argument the guard does what the ordered rules say, once the
  empty status string is counted with the missing status: it passes on a missing or
  empty status and on \<open>OK\<close>; \<open>LOGIN_REQUIRED\<close> with a reason containing \<open>not a bot\<close>
  fails with \<open>request_blocked\<close>; otherwise \<open>LOGIN_REQUIRED\<close> with a reason containing
  \<open>inappropriate\<close> fails with \<open>age_restricted\<close>; otherwise \<open>ERROR\<close> with a reason
  containing \<open>unavailable\<close> fails with \<open>video_unavailable\<close>; every other status fails
  with \<open>video_unplayable\<close>.
\<close>

theorem assertPlayability_rules:
  "assertPlayability ps = guard_rules ps"
  by (cases ps)
     (auto simp: assertPlayability_def guard_rules_def guard_rules_stated_def reason_text_def
           split: option.splits)

section \<open>Properties of decodeHtml\<close>

text \<open>
  C6 (the code departs from the claim). The five replacements run one after the other
  over the whole string, \<open>&amp;\<close> first, so the \<open>&\<close> that the first one writes is read
  again by the later ones: the input \<open>&amp;lt;\<close>, whose only entity is \<open>&amp;\<close>, comes out
  as \<open><\<close>, where replacing each entity of the input and copying the rest gives \<open>&lt;\<close>.
\<close>

theorem decodeHtml_decodes_twice:
  "decodeHtml ''&amp;lt;'' = ''<'' \<and> decode_entities ''&amp;lt;'' = ''&lt;''"
  by (simp add: decodeHtml_def)

section \<open>Properties of normalizeSegments\<close>

subsection \<open>The comparator\<close>

lemma num_positive_sub_neq: "num_positive (num_sub a b) \<Longrightarrow> a \<noteq> b"
  by (cases a; cases b) auto


lemma num_positive_sub_le: "num_positive (num_sub a b) \<Longrightarrow> num_le b a"
  by (cases a; cases b) auto

lemma not_num_positive_sub_le:
  "\<not> num_positive (num_sub a b) \<Longrightarrow> a \<noteq> NaN \<Longrightarrow> b \<noteq> NaN \<Longrightarrow> num_le a b"
  by (cases a; cases b) auto

lemma num_le_trans: "num_le a b \<Longrightarrow> num_le b c \<Longrightarrow> num_le a c"
  by (cases a; cases b; cases c) auto

subsection \<open>The sort\<close>

lemma set_insert_by: "set (insert_by cmp x ys) = insert x (set ys)"
  by (induction ys) auto

lemma array_sort_Nil: "array_sort cmp [] = []"
  by (simp add: array_sort_def)

lemma array_sort_Cons: "array_sort cmp (x # xs) = insert_by cmp x (array_sort cmp xs)"
  by (simp add: array_sort_def)

lemma set_array_sort: "set (array_sort cmp xs) = set xs"
  by (induction xs) (simp_all add: array_sort_Nil array_sort_Cons set_insert_by)

lemma distinct_map_insert_by:
  "distinct (map g (insert_by cmp x ys)) = distinct (map g (x # ys))"
  by (induction ys) (auto simp: set_insert_by)

lemma distinct_map_array_sort:
  "distinct (map g (array_sort cmp xs)) = distinct (map g xs)"
  by (induction xs)
     (simp_all add: array_sort_Nil array_sort_Cons distinct_map_insert_by set_array_sort)

lemma filter_insert_by:
  "filter (\<lambda>s. f s = k) (insert_by (\<lambda>a b. num_sub (f a) (f b)) x ys)
     = filter (\<lambda>s. f s = k) (x # ys)"
proof (induction ys)
  case Nil
  show ?case by simp
next
  case (Cons y ys)
  show ?case
  proof (cases "num_positive (num_sub (f x) (f y))")
    case True
    then have "f x \<noteq> f y" by (rule num_positive_sub_neq)
    with True Cons show ?thesis by auto
  next
    case False
    then show ?thesis by simp
  qed
qed

lemma filter_array_sort:
  "filter (\<lambda>s. f s = k) (array_sort (\<lambda>a b. num_sub (f a) (f b)) xs) = filter (\<lambda>s. f s = k) xs"
proof (induction xs)
  case Nil
  show ?case by (simp add: array_sort_def)
next
  case (Cons x xs)
  have "array_sort (\<lambda>a b. num_sub (f a) (f b)) (x # xs)
      = insert_by (\<lambda>a b. num_sub (f a) (f b)) x (array_sort (\<lambda>a b. num_sub (f a) (f b)) xs)"
    by (simp add: array_sort_def)
  with Cons show ?case by (simp add: filter_insert_by)
qed




lemma sorted_insert_by:
  assumes "sorted_wrt (\<lambda>a b. num_le (f a) (f b)) ys" and "f x \<noteq> NaN" and "\<forall>y\<in>set ys. f y \<noteq> NaN"
  shows "sorted_wrt (\<lambda>a b. num_le (f a) (f b)) (insert_by (\<lambda>a b. num_sub (f a) (f b)) x ys)"
  using assms
proof (induction ys)
  case Nil
  show ?case by simp
next
  case (Cons y ys)
  show ?case
  proof (cases "num_positive (num_sub (f x) (f y))")
    case True
    then have "num_le (f y) (f x)" by (rule num_positive_sub_le)
    with True Cons show ?thesis by (auto simp: set_insert_by)
  next
    case False
    with Cons.prems have xy: "num_le (f x) (f y)" by (simp add: not_num_positive_sub_le)
    with Cons.prems have "\<forall>z\<in>set ys. num_le (f x) (f z)" by (auto intro: num_le_trans)
    with False xy Cons.prems show ?thesis by simp
  qed
qed

lemma sorted_array_sort:
  assumes "\<forall>x\<in>set xs. f x \<noteq> NaN"
  shows "sorted_wrt (\<lambda>a b. num_le (f a) (f b)) (array_sort (\<lambda>a b. num_sub (f a) (f b)) xs)"
  using assms
proof (induction xs)
  case Nil
  show ?case by (simp add: array_sort_def)
next
  case (Cons x xs)
  have e: "array_sort (\<lambda>a b. num_sub (f a) (f b)) (x # xs)
      = insert_by (\<lambda>a b. num_sub (f a) (f b)) x (array_sort (\<lambda>a b. num_sub (f a) (f b)) xs)"
    by (simp add: array_sort_def)
  from Cons show ?case unfolding e
    by (intro sorted_insert_by) (simp_all add: set_array_sort)
qed

subsection \<open>Trimming\<close>

lemma dropWhile_id_iff: "xs = [] \<or> \<not> P (hd xs) \<Longrightarrow> dropWhile P xs = xs"
  by (cases xs) auto

lemma trim_trim: "trim (trim s) = trim s"
proof -
  define t where "t = dropWhile is_white_space s"
  define u where "u = dropWhile is_white_space (rev t)"
  have tr: "trim s = rev u" by (simp add: trim_def t_def u_def)
  have u_hd: "u = [] \<or> \<not> is_white_space (hd u)"
    unfolding u_def using hd_dropWhile[of is_white_space "rev t"] by blast
  have t_hd: "t = [] \<or> \<not> is_white_space (hd t)"
    unfolding t_def using hd_dropWhile[of is_white_space s] by blast
  have "rev u = [] \<or> \<not> is_white_space (hd (rev u))"
  proof (cases "u = []")
    case True then show ?thesis by simp
  next
    case False
    obtain ws where ws: "rev t = ws @ u" unfolding u_def
      by (metis takeWhile_dropWhile_id)
    then have "t = rev u @ rev ws" by (metis rev_append rev_rev_ident)
    with False have "hd (rev u) = hd t" "t \<noteq> []" by auto
    with t_hd show ?thesis by auto
  qed
  then have 1: "dropWhile is_white_space (rev u) = rev u" by (rule dropWhile_id_iff)
  from u_hd have 2: "dropWhile is_white_space u = u" by (rule dropWhile_id_iff)
  show ?thesis unfolding tr unfolding trim_def by (simp add: 1 2)
qed

subsection \<open>The key of the seen set\<close>

lemma of_char_digit_char: "d < 10 \<Longrightarrow> of_char (digit_char d) = (48 + d :: nat)"
  by (simp add: digit_char_def)

lemma digit_val_digits: "digit_val (digits n) = n"
proof (induction n rule: digits.induct)
  case (1 n)
  show ?case
  proof (cases "n < 10")
    case True
    then show ?thesis by (simp add: digits.simps[of n] digit_val_def of_char_digit_char)
  next
    case False
    with 1 have "digit_val (digits (n div 10)) = n div 10" by simp
    with False show ?thesis
      by (simp add: digits.simps[of n] digit_val_def of_char_digit_char)
  qed
qed

lemma digits_inj: "digits a = digits b \<Longrightarrow> a = b"
  by (metis digit_val_digits)

lemma digits_codes: "c \<in> set (digits n) \<Longrightarrow> 48 \<le> (of_char c :: nat) \<and> (of_char c :: nat) \<le> 57"
proof (induction n rule: digits.induct)
  case (1 n)
  show ?case
  proof (cases "n < 10")
    case True
    with 1(2) show ?thesis by (simp add: digits.simps[of n] of_char_digit_char)
  next
    case False
    with 1 show ?thesis by (auto simp add: digits.simps[of n] of_char_digit_char)
  qed
qed

lemma digits_not_in:
  assumes "(of_char c :: nat) < 48 \<or> 57 < (of_char c :: nat)"
  shows "c \<notin> set (digits n)"
  using assms digits_codes[of c n] by auto

lemma digits_no_minus_bar: "CHR ''-'' \<notin> set (digits n)" "CHR ''|'' \<notin> set (digits n)"
  by (rule digits_not_in, simp)+

lemma digits_nonempty: "digits n \<noteq> []"
  by (subst digits.simps) simp

lemma int_to_string_inj: "int_to_string a = int_to_string b \<Longrightarrow> a = b"
proof -
  assume eq: "int_to_string a = int_to_string b"
  have hdn: "hd (digits n) \<noteq> CHR ''-''" for n
    using digits_nonempty[of n] digits_no_minus_bar(1)[of n] by (cases "digits n") auto
  show ?thesis
  proof (cases "a < 0")
    case True
    show ?thesis
    proof (cases "b < 0")
      case b: True
      with True eq have "digits (nat (- a)) = digits (nat (- b))"
        by (simp add: int_to_string_def)
      then have "nat (- a) = nat (- b)" by (rule digits_inj)
      with True b show ?thesis by simp
    next
      case False
      with True eq have "CHR ''-'' # digits (nat (- a)) = digits (nat b)"
        by (simp add: int_to_string_def)
      then have "hd (digits (nat b)) = CHR ''-''" by (cases "digits (nat b)") auto
      with hdn show ?thesis by blast
    qed
  next
    case False
    show ?thesis
    proof (cases "b < 0")
      case True
      with False eq have "digits (nat a) = CHR ''-'' # digits (nat (- b))"
        by (simp add: int_to_string_def)
      then have "hd (digits (nat a)) = CHR ''-''" by (cases "digits (nat a)") auto
      with hdn show ?thesis by blast
    next
      case b: False
      with False eq have "digits (nat a) = digits (nat b)"
        by (simp add: int_to_string_def)
      then have "nat a = nat b" by (rule digits_inj)
      with False b show ?thesis by simp
    qed
  qed
qed

lemma int_to_string_not_in:
  assumes "(of_char c :: nat) < 48 \<or> 57 < (of_char c :: nat)" and "c \<noteq> CHR ''-''"
  shows "c \<notin> set (int_to_string i)"
  using assms by (simp add: int_to_string_def digits_not_in)

lemma int_to_string_no_letters:
  "CHR ''|'' \<notin> set (int_to_string i)" "CHR ''N'' \<notin> set (int_to_string i)"
  "CHR ''I'' \<notin> set (int_to_string i)"
  by (rule int_to_string_not_in, simp, simp)+

lemma int_to_string_not_special:
  "int_to_string i \<noteq> ''NaN''" "int_to_string i \<noteq> ''Infinity''"
  "int_to_string i \<noteq> ''-Infinity''"
proof -
  show "int_to_string i \<noteq> ''NaN''"
  proof
    assume "int_to_string i = ''NaN''"
    then have "CHR ''N'' \<in> set (int_to_string i)" by simp
    with int_to_string_no_letters(2) show False by blast
  qed
  show "int_to_string i \<noteq> ''Infinity''"
  proof
    assume "int_to_string i = ''Infinity''"
    then have "CHR ''I'' \<in> set (int_to_string i)" by simp
    with int_to_string_no_letters(3) show False by blast
  qed
  show "int_to_string i \<noteq> ''-Infinity''"
  proof
    assume "int_to_string i = ''-Infinity''"
    then have "CHR ''I'' \<in> set (int_to_string i)" by simp
    with int_to_string_no_letters(3) show False by blast
  qed
qed

lemma number_to_string_inj: "number_to_string a = number_to_string b \<Longrightarrow> a = b"
proof (cases a)
  case (Finite i)
  then show "number_to_string a = number_to_string b \<Longrightarrow> a = b"
    using int_to_string_not_special[of i] int_to_string_inj by (cases b) auto
next
  case NaN
  then show "number_to_string a = number_to_string b \<Longrightarrow> a = b"
    using int_to_string_not_special by (cases b) (auto dest: sym)
next
  case PosInfinity
  then show "number_to_string a = number_to_string b \<Longrightarrow> a = b"
    using int_to_string_not_special by (cases b) (auto dest: sym)
next
  case NegInfinity
  then show "number_to_string a = number_to_string b \<Longrightarrow> a = b"
    using int_to_string_not_special by (cases b) (auto dest: sym)
qed

lemma number_to_string_no_bar: "CHR ''|'' \<notin> set (number_to_string a)"
  by (cases a) (simp_all add: int_to_string_no_letters)

lemma split_at_first:
  "x \<notin> set xs \<Longrightarrow> x \<notin> set xs' \<Longrightarrow> xs @ x # ys = xs' @ x # ys' \<Longrightarrow> xs = xs' \<and> ys = ys'"
proof (induction xs arbitrary: xs')
  case Nil
  then show ?case by (cases xs') auto
next
  case (Cons a xs)
  then show ?case by (cases xs') auto
qed

lemma seen_key_eq_iff:
  "seen_key a = seen_key b \<longleftrightarrow> startInMs a = startInMs b \<and> text' a = text' b"
proof
  assume "seen_key a = seen_key b"
  then have "number_to_string (startInMs a) @ CHR ''|'' # text' a
           = number_to_string (startInMs b) @ CHR ''|'' # text' b"
    by (simp add: seen_key_def)
  then have "number_to_string (startInMs a) = number_to_string (startInMs b) \<and> text' a = text' b"
    using split_at_first[OF number_to_string_no_bar number_to_string_no_bar] by blast
  then show "startInMs a = startInMs b \<and> text' a = text' b"
    using number_to_string_inj by blast
next
  assume "startInMs a = startInMs b \<and> text' a = text' b"
  then show "seen_key a = seen_key b" by (simp add: seen_key_def)
qed

lemma dedup_filter_first_occurrences:
  "dedup_filter seen xs =
     first_occurrences (\<lambda>s. (startInMs s, text' s)) (filter (\<lambda>s. seen_key s \<notin> seen) xs)"
proof (induction xs arbitrary: seen)
  case Nil
  show ?case by simp
next
  case (Cons x xs)
  have k: "(seen_key y \<noteq> seen_key x) = ((startInMs y, text' y) \<noteq> (startInMs x, text' x))" for y
    by (auto simp: seen_key_eq_iff)
  show ?case
  proof (cases "seen_key x \<in> seen")
    case True
    then show ?thesis by (simp add: Cons.IH)
  next
    case False
    have "filter (\<lambda>s. seen_key s \<notin> insert (seen_key x) seen) xs
        = filter (\<lambda>y. (startInMs y, text' y) \<noteq> (startInMs x, text' x))
            (filter (\<lambda>s. seen_key s \<notin> seen) xs)"
      by (auto simp: k intro!: filter_cong)
    with False show ?thesis by (simp add: Cons.IH Let_def)
  qed
qed

lemma set_first_occurrences: "set (first_occurrences f xs) \<subseteq> set xs"
  by (induction f xs rule: first_occurrences.induct) auto

lemma distinct_first_occurrences: "distinct (map f (first_occurrences f xs))"
proof (induction f xs rule: first_occurrences.induct)
  case (1 f)
  show ?case by simp
next
  case (2 f x xs)
  have "f x \<notin> f ` set (first_occurrences f (filter (\<lambda>y. f y \<noteq> f x) xs))"
    using set_first_occurrences[of f "filter (\<lambda>y. f y \<noteq> f x) xs"] by auto
  with 2 show ?case by simp
qed

lemma first_occurrences_id: "distinct (map f xs) \<Longrightarrow> first_occurrences f xs = xs"
proof (induction xs)
  case Nil
  show ?case by simp
next
  case (Cons x xs)
  from Cons.prems have "f x \<notin> f ` set xs" by simp
  then have "\<forall>y\<in>set xs. f y \<noteq> f x" by (metis imageI)
  then have "filter (\<lambda>y. f y \<noteq> f x) xs = xs" by (simp add: filter_id_conv)
  with Cons show ?case by simp
qed


lemma dedup_filter_distinct_id:
  assumes "distinct (map (\<lambda>s. (startInMs s, text' s)) xs)"
  shows "dedup_filter {} xs = xs"
  using assms by (simp add: dedup_filter_first_occurrences first_occurrences_id)

subsection \<open>The steps of the normaliser\<close>

lemma clean_steps_Nil: "clean_steps [] = []"
  by (simp add: clean_steps_def)

lemma clean_steps_Cons:
  "clean_steps (it # items) =
     (if has_string_text it \<and> text' (trimmed_copy it) \<noteq> []
      then trimmed_copy it # clean_steps items else clean_steps items)"
  by (simp add: clean_steps_def has_string_text_def trimmed_copy_def split: option.splits)

lemma cleaned_clean_steps:
  "filter (\<lambda>s. text' s \<noteq> []) (map trimmed_copy (filter has_string_text items))
     = clean_steps items"
  by (induction items) (simp_all add: clean_steps_Nil clean_steps_Cons)

lemma normalizeSegments_kept:
  "normalizeSegments items
     = array_sort (\<lambda>a b. num_sub (startInMs a) (startInMs b)) (kept_segments items)"
  by (simp add: normalizeSegments_def Let_def cleaned_clean_steps kept_segments_def
        dedup_filter_first_occurrences)

lemma set_normalizeSegments: "set (normalizeSegments items) = set (kept_segments items)"
  by (simp add: normalizeSegments_kept set_array_sort)

lemma kept_segments_distinct:
  "distinct (map (\<lambda>s. (startInMs s, text' s)) (kept_segments items))"
  by (simp add: kept_segments_def distinct_first_occurrences)

lemma normalizeSegments_distinct:
  "distinct (map (\<lambda>s. (startInMs s, text' s)) (normalizeSegments items))"
  by (simp add: normalizeSegments_kept distinct_map_array_sort kept_segments_distinct)

lemma normalizeSegments_stable:
  "filter (\<lambda>s. startInMs s = k) (normalizeSegments items)
     = filter (\<lambda>s. startInMs s = k) (kept_segments items)"
  by (simp add: normalizeSegments_kept filter_array_sort)

lemma normalizeSegments_sorted:
  assumes "\<forall>s\<in>set (kept_segments items). startInMs s \<noteq> NaN"
  shows "sorted_by_start (normalizeSegments items)"
  unfolding sorted_by_start_def normalizeSegments_kept
  by (rule sorted_array_sort) (rule assms)






text \<open>
  C3 (the code departs from the claim). A start time that is \<open>NaN\<close> (the dialect-A parser
  gives one for \<open>start="x"\<close>) makes every comparison with it \<open>NaN\<close>, which the sort reads
  as "equal": the segments starting at 3, \<open>NaN\<close> and 1 are returned in that order, 3
  before 1. The result is not sorted ascending by \<open>startInMs\<close>.
\<close>

theorem normalizeSegments_NaN_unsorted:
  "normalizeSegments
     [typed \<lparr>text' = ''a'', startInMs = Finite 3, duration = Finite 1\<rparr>,
      typed \<lparr>text' = ''b'', startInMs = NaN, duration = Finite 1\<rparr>,
      typed \<lparr>text' = ''c'', startInMs = Finite 1, duration = Finite 1\<rparr>]
    = [\<lparr>text' = ''a'', startInMs = Finite 3, duration = Finite 1\<rparr>,
       \<lparr>text' = ''b'', startInMs = NaN, duration = Finite 1\<rparr>,
       \<lparr>text' = ''c'', startInMs = Finite 1, duration = Finite 1\<rparr>]
   \<and> \<not> sorted_by_start
         [\<lparr>text' = ''a'', startInMs = Finite 3, duration = Finite 1\<rparr>,
          \<lparr>text' = ''b'', startInMs = NaN, duration = Finite 1\<rparr>,
          \<lparr>text' = ''c'', startInMs = Finite 1, duration = Finite 1\<rparr>]
   \<and> \<not> num_le (Finite 3) (Finite 1)"
  by (simp add: sorted_by_start_def) code_simp

text \<open>
  What holds of every argument list: no two elements of the result share both
  \<open>startInMs\<close> and \<open>text\<close>, and its elements are those the steps before the sort keep
  (drop the elements whose text is not a string or is empty once trimmed, trim, keep
  the first occurrence of each pair). When none of these has a start time \<open>NaN\<close>, the
  result is sorted ascending by \<open>startInMs\<close> and the sort is stable: the segments of one
  start time keep the order they had.
\<close>

theorem normalizeSegments_sorted_without_NaN:
  "distinct (map (\<lambda>s. (startInMs s, text' s)) (normalizeSegments items))
   \<and> set (normalizeSegments items) = set (kept_segments items)
   \<and> ((\<forall>s\<in>set (kept_segments items). startInMs s \<noteq> NaN)
        \<longrightarrow> sorted_by_start (normalizeSegments items)
          \<and> (\<forall>k. filter (\<lambda>s. startInMs s = k) (normalizeSegments items)
                    = filter (\<lambda>s. startInMs s = k) (kept_segments items)))"
  using normalizeSegments_sorted normalizeSegments_distinct set_normalizeSegments
    normalizeSegments_stable
  by blast

text \<open>The theorem at a list with a duplicate, a falsy element and both infinities.\<close>

theorem normalizeSegments_sorted_without_NaN_witness:
  "kept_segments
     [typed \<lparr>text' = '' b '', startInMs = Finite 5, duration = Finite 1\<rparr>, None,
      typed \<lparr>text' = ''a'', startInMs = PosInfinity, duration = Finite 1\<rparr>,
      typed \<lparr>text' = ''b'', startInMs = Finite 5, duration = Finite 2\<rparr>,
      typed \<lparr>text' = ''c'', startInMs = NegInfinity, duration = NaN\<rparr>]
    = [\<lparr>text' = ''b'', startInMs = Finite 5, duration = Finite 1\<rparr>,
       \<lparr>text' = ''a'', startInMs = PosInfinity, duration = Finite 1\<rparr>,
       \<lparr>text' = ''c'', startInMs = NegInfinity, duration = NaN\<rparr>]
   \<and> normalizeSegments
     [typed \<lparr>text' = '' b '', startInMs = Finite 5, duration = Finite 1\<rparr>, None,
      typed \<lparr>text' = ''a'', startInMs = PosInfinity, duration = Finite 1\<rparr>,
      typed \<lparr>text' = ''b'', startInMs = Finite 5, duration = Finite 2\<rparr>,
      typed \<lparr>text' = ''c'', startInMs = NegInfinity, duration = NaN\<rparr>]
    = [\<lparr>text' = ''c'', startInMs = NegInfinity, duration = NaN\<rparr>,
       \<lparr>text' = ''b'', startInMs = Finite 5, duration = Finite 1\<rparr>,
       \<lparr>text' = ''a'', startInMs = PosInfinity, duration = Finite 1\<rparr>]
   \<and> sorted_by_start
       [\<lparr>text' = ''c'', startInMs = NegInfinity, duration = NaN\<rparr>,
        \<lparr>text' = ''b'', startInMs = Finite 5, duration = Finite 1\<rparr>,
        \<lparr>text' = ''a'', startInMs = PosInfinity, duration = Finite 1\<rparr>]"
proof -
  have k: "kept_segments
     [typed \<lparr>text' = '' b '', startInMs = Finite 5, duration = Finite 1\<rparr>, None,
      typed \<lparr>text' = ''a'', startInMs = PosInfinity, duration = Finite 1\<rparr>,
      typed \<lparr>text' = ''b'', startInMs = Finite 5, duration = Finite 2\<rparr>,
      typed \<lparr>text' = ''c'', startInMs = NegInfinity, duration = NaN\<rparr>]
    = [\<lparr>text' = ''b'', startInMs = Finite 5, duration = Finite 1\<rparr>,
       \<lparr>text' = ''a'', startInMs = PosInfinity, duration = Finite 1\<rparr>,
       \<lparr>text' = ''c'', startInMs = NegInfinity, duration = NaN\<rparr>]"
    by code_simp
  have n: "normalizeSegments
     [typed \<lparr>text' = '' b '', startInMs = Finite 5, duration = Finite 1\<rparr>, None,
      typed \<lparr>text' = ''a'', startInMs = PosInfinity, duration = Finite 1\<rparr>,
      typed \<lparr>text' = ''b'', startInMs = Finite 5, duration = Finite 2\<rparr>,
      typed \<lparr>text' = ''c'', startInMs = NegInfinity, duration = NaN\<rparr>]
    = [\<lparr>text' = ''c'', startInMs = NegInfinity, duration = NaN\<rparr>,
       \<lparr>text' = ''b'', startInMs = Finite 5, duration = Finite 1\<rparr>,
       \<lparr>text' = ''a'', startInMs = PosInfinity, duration = Finite 1\<rparr>]"
    by code_simp
  from normalizeSegments_sorted_without_NaN
    [of "[typed \<lparr>text' = '' b '', startInMs = Finite 5, duration = Finite 1\<rparr>, None,
      typed \<lparr>text' = ''a'', startInMs = PosInfinity, duration = Finite 1\<rparr>,
      typed \<lparr>text' = ''b'', startInMs = Finite 5, duration = Finite 2\<rparr>,
      typed \<lparr>text' = ''c'', startInMs = NegInfinity, duration = NaN\<rparr>]"]
  show ?thesis unfolding k n by simp
qed


section \<open>Properties of chooseTrack\<close>

subsection \<open>The scan over the preferences\<close>

lemma to_lower_char_idem: "to_lower_char (to_lower_char c) = to_lower_char c"
proof -
  have lt: "(of_char c :: nat) < 256" by simp
  show ?thesis
    using lt by (auto simp: to_lower_char_def Let_def)
qed

lemma toLowerCase_idem: "toLowerCase (toLowerCase s) = toLowerCase s"
  by (simp add: toLowerCase_def to_lower_char_idem)

lemma scan_test_lang_match:
  "(c = toLowerCase p \<or> prefix (toLowerCase p) (toLowerCase c)) = lang_match p c"
  by (auto simp: lang_match_def toLowerCase_idem)

lemma scan_Cons:
  "scan (toLowerCase p # prefs) list =
     (case find (\<lambda>x. lang_match p (languageCode x)) list of
        Some t \<Rightarrow> Some t | None \<Rightarrow> scan prefs list)"
  by (simp add: scan_test_lang_match)

lemma find_None_if: "\<forall>x\<in>set xs. \<not> P x \<Longrightarrow> find P xs = None"
  by (simp add: find_None_iff)

lemma scan_skip:
  assumes "\<forall>q\<in>set ps. \<forall>x\<in>set list. \<not> lang_match q (languageCode x)"
  shows "scan (map toLowerCase (ps @ rest)) list = scan (map toLowerCase rest) list"
  using assms
proof (induction ps)
  case Nil
  show ?case by simp
next
  case (Cons q ps)
  then have "find (\<lambda>x. lang_match q (languageCode x)) list = None"
    by (simp add: find_None_iff)
  with Cons show ?case by (simp add: scan_test_lang_match)
qed

lemma scan_hit:
  assumes "\<forall>q\<in>set ps. \<forall>x\<in>set list. \<not> lang_match q (languageCode x)"
    and "find (\<lambda>x. lang_match p (languageCode x)) list = Some t"
  shows "scan (map toLowerCase (ps @ p # qs)) list = Some t"
  using scan_skip[OF assms(1), of "p # qs"] assms(2) by (simp add: scan_test_lang_match)

lemma chosen_track_manual_hit:
  assumes "scan (map toLowerCase preferred) (manual_tracks tracks) = Some t"
  shows "chosen_track tracks (Some preferred) d ds = Some t"
  using assms by (simp add: chosen_track_def)

lemma chooseTrack_manual_hit:
  assumes "\<forall>q\<in>set ps. \<forall>x\<in>set (manual_tracks tracks). \<not> lang_match q (languageCode x)"
    and "find (\<lambda>x. lang_match p (languageCode x)) (manual_tracks tracks) = Some t"
  shows "chooseTrack tracks (Some (ps @ p # qs)) d ds = Some (select t)"
  using chosen_track_manual_hit[OF scan_hit[OF assms]] by (simp add: chooseTrack_def)

text \<open>
  C4. The manual tracks are scanned against the whole preference list before any
  auto-generated track is looked at: when \<open>p\<close> is the first preference that some manual
  track matches (its language code is \<open>p\<close>, or \<open>p\<close> is a prefix of it, letter case set
  aside), the selection is the first manual track matching \<open>p\<close>, whatever the
  auto-generated tracks and the default hints are. In particular, with manual tracks
  \<open>es\<close>, \<open>en\<close>, an auto-generated track \<open>pt\<close> and the preferences \<open>pt\<close>, \<open>en\<close>, the manual
  \<open>en\<close> track is selected.
\<close>

theorem chooseTrack_manual_first:
  "(preferred = ps @ p # qs
      \<and> (\<forall>q\<in>set ps. \<forall>x\<in>set (manual_tracks tracks). \<not> lang_match q (languageCode x))
      \<and> find (\<lambda>x. lang_match p (languageCode x)) (manual_tracks tracks) = Some t
    \<longrightarrow> chooseTrack tracks (Some preferred) d ds = Some (select t))
   \<and> (manual_tracks tracks = [m1, m2] \<and> languageCode m1 = ''es'' \<and> languageCode m2 = ''en''
        \<and> map languageCode (asr_tracks tracks) = [''pt'']
    \<longrightarrow> chooseTrack tracks (Some [''pt'', ''en'']) d ds = Some (select m2))"
proof (intro conjI impI)
  assume "preferred = ps @ p # qs
      \<and> (\<forall>q\<in>set ps. \<forall>x\<in>set (manual_tracks tracks). \<not> lang_match q (languageCode x))
      \<and> find (\<lambda>x. lang_match p (languageCode x)) (manual_tracks tracks) = Some t"
  then show "chooseTrack tracks (Some preferred) d ds = Some (select t)"
    using chooseTrack_manual_hit by blast
next
  assume a: "manual_tracks tracks = [m1, m2] \<and> languageCode m1 = ''es'' \<and> languageCode m2 = ''en''
        \<and> map languageCode (asr_tracks tracks) = [''pt'']"
  have 1: "\<forall>q\<in>set [''pt'']. \<forall>x\<in>set (manual_tracks tracks). \<not> lang_match q (languageCode x)"
    using a by (simp add: lang_match_def toLowerCase_def to_lower_char_def)
  have 2: "find (\<lambda>x. lang_match ''en'' (languageCode x)) (manual_tracks tracks) = Some m2"
    using a by (simp add: lang_match_def toLowerCase_def to_lower_char_def)
  show "chooseTrack tracks (Some [''pt'', ''en'']) d ds = Some (select m2)"
    using chooseTrack_manual_hit[OF 1 2, of "[]"] by simp
qed

text \<open>The theorem at the tracks \<open>es\<close> (manual), \<open>pt\<close> (auto-generated), \<open>en\<close> (manual).\<close>

theorem chooseTrack_manual_first_witness:
  "manual_tracks
     [\<lparr>kind = '''', languageCode = ''es'', baseUrl = ''https://e/es''\<rparr>,
      \<lparr>kind = ''asr'', languageCode = ''pt'', baseUrl = ''https://e/pt''\<rparr>,
      \<lparr>kind = '''', languageCode = ''en'', baseUrl = ''https://e/en''\<rparr>]
    = [\<lparr>kind = '''', languageCode = ''es'', baseUrl = ''https://e/es''\<rparr>,
       \<lparr>kind = '''', languageCode = ''en'', baseUrl = ''https://e/en''\<rparr>]
   \<and> map languageCode (asr_tracks
     [\<lparr>kind = '''', languageCode = ''es'', baseUrl = ''https://e/es''\<rparr>,
      \<lparr>kind = ''asr'', languageCode = ''pt'', baseUrl = ''https://e/pt''\<rparr>,
      \<lparr>kind = '''', languageCode = ''en'', baseUrl = ''https://e/en''\<rparr>]) = [''pt'']
   \<and> chooseTrack
     [\<lparr>kind = '''', languageCode = ''es'', baseUrl = ''https://e/es''\<rparr>,
      \<lparr>kind = ''asr'', languageCode = ''pt'', baseUrl = ''https://e/pt''\<rparr>,
      \<lparr>kind = '''', languageCode = ''en'', baseUrl = ''https://e/en''\<rparr>]
     (Some [''pt'', ''en'']) None None
    = Some \<lparr>url = ''https://e/en'', lang = ''en''\<rparr>"
  using chooseTrack_manual_first
    [of "[''pt'', ''en'']" "[''pt'']" "''en''" "[]"
        "[\<lparr>kind = '''', languageCode = ''es'', baseUrl = ''https://e/es''\<rparr>,
          \<lparr>kind = ''asr'', languageCode = ''pt'', baseUrl = ''https://e/pt''\<rparr>,
          \<lparr>kind = '''', languageCode = ''en'', baseUrl = ''https://e/en''\<rparr>]"
        "\<lparr>kind = '''', languageCode = ''en'', baseUrl = ''https://e/en''\<rparr>"
        None None
        "\<lparr>kind = '''', languageCode = ''es'', baseUrl = ''https://e/es''\<rparr>"
        "\<lparr>kind = '''', languageCode = ''en'', baseUrl = ''https://e/en''\<rparr>"]
  by (simp add: manual_tracks_def asr_tracks_def select_def lang_match_def toLowerCase_def
        to_lower_char_def)

subsection \<open>The selected URL\<close>

lemma scan_in_list: "scan prefs list = Some t \<Longrightarrow> t \<in> set list"
proof (induction prefs)
  case Nil
  then show ?case by simp
next
  case (Cons p prefs)
  then show ?case
    by (auto split: option.splits simp: find_Some_iff)
qed

lemma at_index_in_list: "at_index xs i = Some x \<Longrightarrow> x \<in> set xs"
  by (auto simp: at_index_def split: if_splits)

lemma first_usable_usable:
  "first_usable tracks idxs = Some t \<Longrightarrow> t \<in> set tracks \<and> baseUrl t \<noteq> []"
proof (induction idxs)
  case Nil
  then show ?case by simp
next
  case (Cons i idxs)
  then show ?case
    by (auto split: option.splits if_splits dest: at_index_in_list)
qed

lemma manual_tracks_usable: "t \<in> set (manual_tracks tracks) \<Longrightarrow> t \<in> set tracks \<and> baseUrl t \<noteq> []"
  by (simp add: manual_tracks_def)

lemma asr_tracks_usable: "t \<in> set (asr_tracks tracks) \<Longrightarrow> t \<in> set tracks \<and> baseUrl t \<noteq> []"
  by (simp add: asr_tracks_def)

lemma chosen_track_usable:
  assumes "chosen_track tracks prefs d ds = Some t"
  shows "t \<in> set tracks \<and> baseUrl t \<noteq> []"
proof -
  define ps where "ps = map toLowerCase (case prefs of None \<Rightarrow> [] | Some ps \<Rightarrow> ps)"
  consider
      (m) "scan ps (manual_tracks tracks) = Some t"
    | (a) "scan ps (asr_tracks tracks) = Some t"
    | (d) i where "d = Some i" "at_index tracks i = Some t" "baseUrl t \<noteq> []"
    | (s) idxs where "ds = Some idxs" "first_usable tracks idxs = Some t"
    | (m0) rest where "manual_tracks tracks = t # rest"
    | (a0) rest where "asr_tracks tracks = t # rest"
    using assms unfolding chosen_track_def Let_def ps_def[symmetric]
    by (auto split: option.splits list.splits if_splits simp: Option.bind_eq_Some_conv)
  then show ?thesis
  proof cases
    case m
    then show ?thesis using scan_in_list manual_tracks_usable by blast
  next
    case a
    then show ?thesis using scan_in_list asr_tracks_usable by blast
  next
    case d
    then show ?thesis using at_index_in_list[of tracks i t] by simp
  next
    case s
    then show ?thesis using first_usable_usable by blast
  next
    case m0
    then show ?thesis using manual_tracks_usable[of t tracks] by simp
  next
    case a0
    then show ?thesis using asr_tracks_usable[of t tracks] by simp
  qed
qed

lemma prefix_shorter:
  "prefix p (xs @ ys) \<Longrightarrow> length p \<le> length xs \<Longrightarrow> prefix p xs"
  by (auto simp: prefix_append)

lemma replace_first_self: "p \<noteq> [] \<Longrightarrow> replace_first p [] p = []"
  by (cases p) simp_all

lemma replace_first_last_occurrence:
  assumes "\<not> str_includes (u @ w) (w @ [z])"
  shows "replace_first (w @ [z]) [] (u @ w @ [z]) = u"
  using assms
proof (induction u)
  case Nil
  show ?case using replace_first_self[of "w @ [z]"] by simp
next
  case (Cons a u)
  from Cons.prems have n1: "\<not> prefix (w @ [z]) (a # u @ w)"
    and n2: "\<not> str_includes (u @ w) (w @ [z])" by simp_all
  have np: "\<not> prefix (w @ [z]) (a # u @ w @ [z])"
  proof
    assume "prefix (w @ [z]) (a # u @ w @ [z])"
    then have "prefix (w @ [z]) ((a # u @ w) @ [z])" by simp
    then have "prefix (w @ [z]) (a # u @ w)" by (rule prefix_shorter) simp
    with n1 show False by simp
  qed
  from n2 have "replace_first (w @ [z]) [] (u @ w @ [z]) = u" by (rule Cons.IH)
  with np show ?case by simp
qed

lemma replace_first_only_suffix:
  assumes "\<not> str_includes (u @ ''&fmt=srv'') ''&fmt=srv3''"
  shows "replace_first ''&fmt=srv3'' [] (u @ ''&fmt=srv3'') = u"
  using replace_first_last_occurrence[of u "''&fmt=srv''" "CHR ''3''"] assms by simp

lemma str_includes_append: "str_includes s sub \<Longrightarrow> str_includes (s @ w) sub"
proof (induction s)
  case Nil
  then show ?case by (cases w) auto
next
  case (Cons a s)
  show ?case
  proof (cases "prefix sub (a # s)")
    case True
    then have "prefix sub ((a # s) @ w)" by (rule prefix_prefix)
    then show ?thesis by simp
  next
    case False
    with Cons show ?thesis by simp
  qed
qed

lemma str_includes_suffix: "suffix sub s \<Longrightarrow> sub \<noteq> [] \<Longrightarrow> str_includes s sub"
proof (induction s)
  case Nil
  then show ?case by simp
next
  case (Cons a s)
  then show ?case by (auto simp: suffix_Cons)
qed

text \<open>
  C9 (as stated, refuted). \<open>replace\<close> with a string pattern removes the first occurrence
  of \<open>&fmt=srv3\<close>, wherever it stands, and no other: a \<open>baseUrl\<close> with two occurrences
  gives a URL that still ends in \<open>&fmt=srv3\<close>, and an occurrence that is not a suffix is
  removed from the middle.
\<close>

theorem chooseTrack_url_ends_in_srv3:
  "chooseTrack [\<lparr>kind = '''', languageCode = ''en'', baseUrl = ''https://e/en&fmt=srv3&fmt=srv3''\<rparr>]
     None None None = Some \<lparr>url = ''https://e/en&fmt=srv3'', lang = ''en''\<rparr>
   \<and> suffix ''&fmt=srv3'' ''https://e/en&fmt=srv3''
   \<and> chooseTrack [\<lparr>kind = '''', languageCode = ''en'', baseUrl = ''https://e/en&fmt=srv3&lang=en''\<rparr>]
     None None None = Some \<lparr>url = ''https://e/en&lang=en'', lang = ''en''\<rparr>"
  by (simp add: chooseTrack_def chosen_track_def manual_tracks_def asr_tracks_def select_def
        suffix_def)

text \<open>
  C9 (amended). Whenever \<open>chooseTrack\<close> returns a selection, it is built from one of the
  given tracks, whose \<open>baseUrl\<close> is not empty: the returned URL is that \<open>baseUrl\<close> with its
  first occurrence of \<open>&fmt=srv3\<close> removed, and the returned \<open>lang\<close> is its language code.
  When the \<open>baseUrl\<close> of the chosen track is \<open>u\<close> followed by \<open>&fmt=srv3\<close>, with no
  occurrence of \<open>&fmt=srv3\<close> starting earlier, the returned URL is \<open>u\<close>, and it does not
  end in \<open>&fmt=srv3\<close>.
\<close>

theorem chooseTrack_removes_first_srv3:
  "(chooseTrack tracks prefs d ds = Some sel \<longrightarrow>
      (\<exists>t. chosen_track tracks prefs d ds = Some t \<and> t \<in> set tracks \<and> baseUrl t \<noteq> []
           \<and> url sel = replace_first ''&fmt=srv3'' [] (baseUrl t) \<and> lang sel = languageCode t))
   \<and> (chosen_track tracks prefs d ds = Some t \<and> baseUrl t = u @ ''&fmt=srv3''
        \<and> \<not> str_includes (u @ ''&fmt=srv'') ''&fmt=srv3''
      \<longrightarrow> chooseTrack tracks prefs d ds = Some \<lparr>url = u, lang = languageCode t\<rparr>
           \<and> \<not> suffix ''&fmt=srv3'' u)"
proof (intro conjI impI)
  assume "chooseTrack tracks prefs d ds = Some sel"
  then obtain t where t: "chosen_track tracks prefs d ds = Some t" "sel = select t"
    by (auto simp: chooseTrack_def)
  with chosen_track_usable[OF t(1)]
  show "\<exists>t. chosen_track tracks prefs d ds = Some t \<and> t \<in> set tracks \<and> baseUrl t \<noteq> []
           \<and> url sel = replace_first ''&fmt=srv3'' [] (baseUrl t) \<and> lang sel = languageCode t"
    by (simp add: select_def)
next
  assume a: "chosen_track tracks prefs d ds = Some t \<and> baseUrl t = u @ ''&fmt=srv3''
        \<and> \<not> str_includes (u @ ''&fmt=srv'') ''&fmt=srv3''"
  then show "chooseTrack tracks prefs d ds = Some \<lparr>url = u, lang = languageCode t\<rparr>"
    by (simp add: chooseTrack_def select_def replace_first_only_suffix)
next
  assume a: "chosen_track tracks prefs d ds = Some t \<and> baseUrl t = u @ ''&fmt=srv3''
        \<and> \<not> str_includes (u @ ''&fmt=srv'') ''&fmt=srv3''"
  show "\<not> suffix ''&fmt=srv3'' u"
  proof
    assume "suffix ''&fmt=srv3'' u"
    then have "str_includes u ''&fmt=srv3''" by (rule str_includes_suffix) simp
    then have "str_includes (u @ ''&fmt=srv'') ''&fmt=srv3''" by (rule str_includes_append)
    with a show False by simp
  qed
qed

text \<open>The theorem at one auto-generated track, chosen by the default caption index.\<close>

theorem chooseTrack_removes_first_srv3_witness:
  "chooseTrack [\<lparr>kind = ''asr'', languageCode = ''en'', baseUrl = ''https://e/en&fmt=srv3''\<rparr>]
     None (Some 0) None = Some \<lparr>url = ''https://e/en'', lang = ''en''\<rparr>
   \<and> chosen_track [\<lparr>kind = ''asr'', languageCode = ''en'', baseUrl = ''https://e/en&fmt=srv3''\<rparr>]
     None (Some 0) None = Some \<lparr>kind = ''asr'', languageCode = ''en'', baseUrl = ''https://e/en&fmt=srv3''\<rparr>
   \<and> \<not> str_includes ''https://e/en&fmt=srv'' ''&fmt=srv3''
   \<and> \<not> suffix ''&fmt=srv3'' ''https://e/en''"
  using chooseTrack_removes_first_srv3
    [of "[\<lparr>kind = ''asr'', languageCode = ''en'', baseUrl = ''https://e/en&fmt=srv3''\<rparr>]"
        None "Some 0" None "\<lparr>url = ''https://e/en'', lang = ''en''\<rparr>"
        "\<lparr>kind = ''asr'', languageCode = ''en'', baseUrl = ''https://e/en&fmt=srv3''\<rparr>"
        "''https://e/en''"]
  by (simp add: chosen_track_def manual_tracks_def asr_tracks_def at_index_def)

section \<open>Properties of extractVideoId\<close>

lemma in_lit: "r \<in> set (lit l s) \<longleftrightarrow> s = l @ r"
  by (auto simp: lit_def prefix_def)

lemma set_seq: "set (seq a b s) = (\<Union>r\<in>set (a s). set (b r))"
  by (simp add: seq_def List.bind_def)

lemma set_alt: "set (alt a b s) = set (a s) \<union> set (b s)"
  by (simp add: alt_def)

lemma set_opt: "set (opt a s) = insert s (set (a s))"
  by (simp add: opt_def)

lemma scheme_shape:
  "v \<in> set (opt (seq (lit ''http'') (seq (opt (lit ''s'')) (lit ''://''))) s)
   \<Longrightarrow> s = v \<or> s = ''http://'' @ v \<or> s = ''https://'' @ v"
  by (auto simp: set_seq set_opt in_lit)

lemma www_shape: "w \<in> set (opt (lit ''www.'') v) \<Longrightarrow> v = w \<or> v = ''www.'' @ w"
  by (auto simp: set_opt in_lit)

lemma host_shape:
  "r \<in> set (alt (seq (lit ''youtube.com/'')
                   (alt (lit ''watch?v='') (alt (lit ''embed/'') (alt (lit ''v/'') (lit ''live/'')))))
              (lit ''youtu.be/'') w)
   \<Longrightarrow> \<exists>m\<in>set marker_tails. w = CHR ''y'' # m @ r"
  by (auto simp: set_seq set_alt in_lit marker_tails_def)

lemma video_url_marker_shape:
  assumes "r \<in> set (video_url_marker s)"
  shows "\<exists>x m. s = x @ CHR ''y'' # m @ r \<and> CHR ''y'' \<notin> set x \<and> m \<in> set marker_tails"
proof -
  from assms obtain v w where
    v: "v \<in> set (opt (seq (lit ''http'') (seq (opt (lit ''s'')) (lit ''://''))) s)"
    and w: "w \<in> set (opt (lit ''www.'') v)"
    and r: "r \<in> set (alt (seq (lit ''youtube.com/'')
                   (alt (lit ''watch?v='') (alt (lit ''embed/'') (alt (lit ''v/'') (lit ''live/'')))))
              (lit ''youtu.be/'') w)"
    unfolding video_url_marker_def by (subst (asm) set_seq, subst (asm) set_seq) blast
  from host_shape[OF r] obtain m where m: "m \<in> set marker_tails" "w = CHR ''y'' # m @ r" by blast
  have "\<exists>x. s = x @ w \<and> CHR ''y'' \<notin> set x"
  proof -
    from scheme_shape[OF v] have "\<exists>a. s = a @ v \<and> CHR ''y'' \<notin> set a"
    proof (elim disjE)
      assume "s = v" then show ?thesis by (intro exI[of _ "[]"]) simp
    next
      assume "s = ''http://'' @ v" then show ?thesis by (intro exI[of _ "''http://''"]) simp
    next
      assume "s = ''https://'' @ v" then show ?thesis by (intro exI[of _ "''https://''"]) simp
    qed
    then obtain a where a: "s = a @ v" "CHR ''y'' \<notin> set a" by blast
    from www_shape[OF w] have "\<exists>b. v = b @ w \<and> CHR ''y'' \<notin> set b"
    proof (elim disjE)
      assume "v = w" then show ?thesis by (intro exI[of _ "[]"]) simp
    next
      assume "v = ''www.'' @ w" then show ?thesis by (intro exI[of _ "''www.''"]) simp
    qed
    then obtain b where b: "v = b @ w" "CHR ''y'' \<notin> set b" by blast
    from a b show ?thesis by (intro exI[of _ "a @ b"]) simp
  qed
  with m show ?thesis by blast
qed

lemma marker_unique:
  assumes "m \<in> set marker_tails" "m' \<in> set marker_tails" "m @ r = m' @ r'"
  shows "m = m' \<and> r = r'"
  using assms by (auto simp: marker_tails_def)

lemma video_url_marker_only:
  assumes y: "CHR ''y'' \<notin> set p" and m: "m \<in> set marker_tails"
    and r: "r \<in> set (video_url_marker (p @ CHR ''y'' # m @ t))"
  shows "r = t"
proof -
  from video_url_marker_shape[OF r] obtain x m' where
    e: "p @ CHR ''y'' # m @ t = x @ CHR ''y'' # m' @ r" and x: "CHR ''y'' \<notin> set x"
    and m': "m' \<in> set marker_tails" by blast
  from split_at_first[OF y x e] have "m @ t = m' @ r" by simp
  with marker_unique[OF m m', of t r] show ?thesis by blast
qed

lemma in_lit_here: "r \<in> set (lit a (a @ r))"
  by (simp add: lit_def)

lemma in_seq_lit: "r \<in> set (b w) \<Longrightarrow> r \<in> set (seq (lit a) b (a @ w))"
  by (simp add: set_seq lit_def)

lemma in_alt1: "r \<in> set (a s) \<Longrightarrow> r \<in> set (alt a b s)"
  by (simp add: set_alt)

lemma in_alt2: "r \<in> set (b s) \<Longrightarrow> r \<in> set (alt a b s)"
  by (simp add: set_alt)

lemma host_in_marker:
  assumes "r \<in> set (alt (seq (lit ''youtube.com/'')
                   (alt (lit ''watch?v='') (alt (lit ''embed/'') (alt (lit ''v/'') (lit ''live/'')))))
              (lit ''youtu.be/'') w)"
  shows "r \<in> set (video_url_marker w)"
  unfolding video_url_marker_def
  by (subst set_seq, subst set_seq, subst set_opt, subst set_opt) (use assms in blast)

lemma host_watch:
  "t \<in> set (alt (seq (lit ''youtube.com/'')
                   (alt (lit ''watch?v='') (alt (lit ''embed/'') (alt (lit ''v/'') (lit ''live/'')))))
              (lit ''youtu.be/'') (''youtube.com/'' @ ''watch?v='' @ t))"
  by (rule in_alt1, rule in_seq_lit, rule in_alt1, rule in_lit_here)

lemma host_embed:
  "t \<in> set (alt (seq (lit ''youtube.com/'')
                   (alt (lit ''watch?v='') (alt (lit ''embed/'') (alt (lit ''v/'') (lit ''live/'')))))
              (lit ''youtu.be/'') (''youtube.com/'' @ ''embed/'' @ t))"
  by (rule in_alt1, rule in_seq_lit, rule in_alt2, rule in_alt1, rule in_lit_here)

lemma host_v:
  "t \<in> set (alt (seq (lit ''youtube.com/'')
                   (alt (lit ''watch?v='') (alt (lit ''embed/'') (alt (lit ''v/'') (lit ''live/'')))))
              (lit ''youtu.be/'') (''youtube.com/'' @ ''v/'' @ t))"
  by (rule in_alt1, rule in_seq_lit, rule in_alt2, rule in_alt2, rule in_alt1, rule in_lit_here)

lemma host_live:
  "t \<in> set (alt (seq (lit ''youtube.com/'')
                   (alt (lit ''watch?v='') (alt (lit ''embed/'') (alt (lit ''v/'') (lit ''live/'')))))
              (lit ''youtu.be/'') (''youtube.com/'' @ ''live/'' @ t))"
  by (rule in_alt1, rule in_seq_lit, rule in_alt2, rule in_alt2, rule in_alt2, rule in_lit_here)

lemma host_short:
  "t \<in> set (alt (seq (lit ''youtube.com/'')
                   (alt (lit ''watch?v='') (alt (lit ''embed/'') (alt (lit ''v/'') (lit ''live/'')))))
              (lit ''youtu.be/'') (''youtu.be/'' @ t))"
  by (rule in_alt2, rule in_lit_here)

lemma video_url_marker_here:
  assumes "m \<in> set marker_tails"
  shows "t \<in> set (video_url_marker (CHR ''y'' # m @ t))"
proof -
  from assms consider "m = ''outube.com/watch?v=''" | "m = ''outube.com/embed/''"
    | "m = ''outube.com/v/''" | "m = ''outube.com/live/''" | "m = ''outu.be/''"
    unfolding marker_tails_def by fastforce
  then show ?thesis
  proof cases
    case 1
    with host_in_marker[OF host_watch, of t] show ?thesis by simp
  next
    case 2
    with host_in_marker[OF host_embed, of t] show ?thesis by simp
  next
    case 3
    with host_in_marker[OF host_v, of t] show ?thesis by simp
  next
    case 4
    with host_in_marker[OF host_live, of t] show ?thesis by simp
  next
    case 5
    with host_in_marker[OF host_short, of t] show ?thesis by simp
  qed
qed

lemma id_group_token:
  assumes "length tok = 11" "list_all is_id_char tok"
  shows "id_group (tok @ rest) = [(tok, rest)]"
  using assms by (simp add: id_group_def)

lemma bind_const:
  assumes "\<forall>r\<in>set rs. f r = [y]" "rs \<noteq> []"
  shows "\<exists>n. List.bind rs f = y # replicate n y"
  using assms
proof (induction rs)
  case Nil
  then show ?case by simp
next
  case (Cons a rs)
  show ?case
  proof (cases "rs = []")
    case True
    with Cons.prems show ?thesis by (simp add: List.bind_def)
  next
    case False
    with Cons obtain n where "List.bind rs f = y # replicate n y" by auto
    with Cons.prems show ?thesis by (intro exI[of _ "Suc n"]) (simp add: List.bind_def)
  qed
qed

lemma video_id_at_token:
  assumes tok: "length tok = 11" "list_all is_id_char tok"
    and y: "CHR ''y'' \<notin> set p" and m: "m \<in> set marker_tails"
  shows "(if video_url_marker (p @ CHR ''y'' # m @ tok @ rest) = []
          then video_id_at (p @ CHR ''y'' # m @ tok @ rest) = []
          else \<exists>more. video_id_at (p @ CHR ''y'' # m @ tok @ rest) = (tok, rest) # more)"
proof (cases "video_url_marker (p @ CHR ''y'' # m @ tok @ rest) = []")
  case True
  then show ?thesis by (simp add: video_id_at_def)
next
  case False
  have "\<forall>r\<in>set (video_url_marker (p @ CHR ''y'' # m @ tok @ rest)). id_group r = [(tok, rest)]"
    using video_url_marker_only[OF y m] id_group_token[OF tok] by blast
  from bind_const[OF this False] False show ?thesis by (auto simp: video_id_at_def)
qed

lemma video_id_at_token_here:
  assumes tok: "length tok = 11" "list_all is_id_char tok" and m: "m \<in> set marker_tails"
  shows "\<exists>more. video_id_at (CHR ''y'' # m @ tok @ rest) = (tok, rest) # more"
proof -
  have "video_url_marker (CHR ''y'' # m @ tok @ rest) \<noteq> []"
    using video_url_marker_here[OF m, of "tok @ rest"] by auto
  with video_id_at_token[OF tok _ m, of "[]" rest] show ?thesis by simp
qed

lemma extractVideoId_token:
  assumes tok: "length tok = 11" "list_all is_id_char tok"
    and y: "CHR ''y'' \<notin> set p" and m: "m \<in> set marker_tails"
  shows "extractVideoId (p @ CHR ''y'' # m @ tok @ rest) = Some tok"
  using y unfolding extractVideoId_def
proof (induction p)
  case Nil
  from video_id_at_token_here[OF tok m, of rest] show ?case by auto
next
  case (Cons a p)
  then have y': "CHR ''y'' \<notin> set (a # p)" and ih: "re_search video_id_at (p @ CHR ''y'' # m @ tok @ rest) = Some tok"
    by simp_all
  from video_id_at_token[OF tok y' m, of rest] ih show ?case by (auto split: if_splits)
qed

text \<open>
  C8. For every token of 11 characters of \<open>[A-Za-z0-9_-]\<close>, \<open>extractVideoId\<close> returns that
  token on each of the five URL shapes built from it: the marker (\<open>youtube.com/watch?v=\<close>,
  \<open>youtu.be/\<close>, \<open>youtube.com/embed/\<close>, \<open>youtube.com/v/\<close>, \<open>youtube.com/live/\<close>), then the
  token, then anything. What stands before the marker (a scheme, \<open>www.\<close>, another host
  prefix, or nothing) is any text without the letter \<open>y\<close>, so that no marker starts
  in it.
\<close>

theorem extractVideoId_supported_shapes:
  assumes "length tok = 11" and "list_all is_id_char tok" and "CHR ''y'' \<notin> set pre"
  shows "extractVideoId (pre @ ''youtube.com/watch?v='' @ tok @ rest) = Some tok
       \<and> extractVideoId (pre @ ''youtu.be/'' @ tok @ rest) = Some tok
       \<and> extractVideoId (pre @ ''youtube.com/embed/'' @ tok @ rest) = Some tok
       \<and> extractVideoId (pre @ ''youtube.com/v/'' @ tok @ rest) = Some tok
       \<and> extractVideoId (pre @ ''youtube.com/live/'' @ tok @ rest) = Some tok"
  using extractVideoId_token[OF assms, of "''outube.com/watch?v=''" rest]
    extractVideoId_token[OF assms, of "''outu.be/''" rest]
    extractVideoId_token[OF assms, of "''outube.com/embed/''" rest]
    extractVideoId_token[OF assms, of "''outube.com/v/''" rest]
    extractVideoId_token[OF assms, of "''outube.com/live/''" rest]
  by (simp add: marker_tails_def)

text \<open>The theorem at the token \<open>dQw4w9WgXcQ\<close> after \<open>https://www.\<close>.\<close>

theorem extractVideoId_supported_shapes_witness:
  "extractVideoId ''https://www.youtube.com/watch?v=dQw4w9WgXcQ'' = Some ''dQw4w9WgXcQ''
   \<and> extractVideoId ''https://www.youtu.be/dQw4w9WgXcQ'' = Some ''dQw4w9WgXcQ''
   \<and> extractVideoId ''https://www.youtube.com/embed/dQw4w9WgXcQ'' = Some ''dQw4w9WgXcQ''
   \<and> extractVideoId ''https://www.youtube.com/v/dQw4w9WgXcQ'' = Some ''dQw4w9WgXcQ''
   \<and> extractVideoId ''https://www.youtube.com/live/dQw4w9WgXcQ'' = Some ''dQw4w9WgXcQ''"
  using extractVideoId_supported_shapes[of "''dQw4w9WgXcQ''" "''https://www.''" "[]"]
  by (simp add: is_id_char_def is_word_char_def)

section \<open>Properties of parseSegments\<close>

lemma parseTranscriptTexts_texts:
  "s \<in> set (parseTranscriptTexts to_ms xml) \<Longrightarrow> text' s \<noteq> [] \<and> trim (text' s) = text' s"
  by (auto simp: parseTranscriptTexts_def Let_def trim_trim split: if_splits)

lemma parseTimedtext_texts:
  "s \<in> set (parseTimedtext big xml) \<Longrightarrow> text' s \<noteq> [] \<and> trim (text' s) = text' s"
  by (auto simp: parseTimedtext_def Let_def trim_trim split: if_splits)

text \<open>
  C10. For every XML text (and every conversion of the time attributes), each segment
  that \<open>parseSegments\<close> produces, by either dialect, has a text that is not empty and
  that trimming leaves as it is: the dialect parsers trim and drop the empty texts
  themselves.
\<close>

theorem parseSegments_texts_trimmed:
  "\<forall>s\<in>set (parseSegments to_ms big xml). text' s \<noteq> [] \<and> trim (text' s) = text' s"
  using parseTranscriptTexts_texts parseTimedtext_texts
  by (auto simp: parseSegments_def Let_def)

text \<open>The theorem at one document of each dialect.\<close>

theorem parseSegments_texts_trimmed_witness:
  \<open>parseSegments (\<lambda>g. Finite (1000 * int (digit_val g))) (\<lambda>g. PosInfinity)
       ''<text start="1" dur="2"> Hi </text>''
     = [\<lparr>text' = ''Hi'', startInMs = Finite 1000, duration = Finite 2000\<rparr>]
   \<and> trim ''Hi'' = ''Hi''
   \<and> parseSegments (\<lambda>g. Finite (1000 * int (digit_val g))) (\<lambda>g. PosInfinity)
       ''<p t="15" d="20"><i>&lt;</i> </p>''
     = [\<lparr>text' = ''<'', startInMs = Finite 15, duration = Finite 20\<rparr>]
   \<and> trim ''<'' = ''<''\<close>
proof -
  have a: \<open>parseSegments (\<lambda>g. Finite (1000 * int (digit_val g))) (\<lambda>g. PosInfinity)
       ''<text start="1" dur="2"> Hi </text>''
     = [\<lparr>text' = ''Hi'', startInMs = Finite 1000, duration = Finite 2000\<rparr>]\<close>
    by code_simp
  have b: \<open>parseSegments (\<lambda>g. Finite (1000 * int (digit_val g))) (\<lambda>g. PosInfinity)
       ''<p t="15" d="20"><i>&lt;</i> </p>''
     = [\<lparr>text' = ''<'', startInMs = Finite 15, duration = Finite 20\<rparr>]\<close>
    by code_simp
  from parseSegments_texts_trimmed[of "\<lambda>g. Finite (1000 * int (digit_val g))" "\<lambda>g. PosInfinity"
         \<open>''<text start="1" dur="2"> Hi </text>''\<close>]
       parseSegments_texts_trimmed[of "\<lambda>g. Finite (1000 * int (digit_val g))" "\<lambda>g. PosInfinity"
         \<open>''<p t="15" d="20"><i>&lt;</i> </p>''\<close>]
  show ?thesis unfolding a b by simp
qed

section \<open>Properties of transcriptYt\<close>

lemma catch_block_result:
  "\<exists>c\<in>set categories. \<exists>m. catch_block err = ([logError c m], None)"
  unfolding catch_block_def Let_def categories_def
  by (simp only: if_distrib[of "\<lambda>x. _ = x"] split: if_splits) fastforce

lemma normalizeSegments_sorted_if:
  "(\<forall>s\<in>set (normalizeSegments items). startInMs s \<noteq> NaN)
     \<Longrightarrow> sorted_by_start (normalizeSegments items)"
  by (rule normalizeSegments_sorted) (simp add: set_normalizeSegments)

lemma try_block_result:
  assumes "try_block to_ms big fetch args = Inr (lines, result)"
  shows "(result = None \<and> (\<exists>c\<in>set categories. \<exists>m. lines = [logError c m]))
       \<or> (lines = [] \<and> (\<exists>segs. result = Some segs \<and> segs \<noteq> []
              \<and> ((\<forall>s\<in>set segs. startInMs s \<noteq> NaN) \<longrightarrow> sorted_by_start segs)))"
  using assms unfolding try_block_def Let_def
  by (auto split: option.splits sum.splits if_splits
           simp: categories_def normalizeSegments_sorted_if)

text \<open>
  C1 (the code departs from the claim). On a caption document whose second \<open>start\<close>
  attribute is \<open>x\<close>, the promise is fulfilled with a list that is not empty but is not
  ordered by start time: the start times are 3000, \<open>NaN\<close>, 1000, in that order.
\<close>

theorem transcriptYt_NaN_unsorted:
  \<open>transcriptYt example_to_ms (\<lambda>g. PosInfinity)
     (example_fetch ''<text start="3" dur="1">a</text><text start="x" dur="1">b</text><text start="1" dur="1">c</text>'')
     example_args
   = ([], Inr (Some [\<lparr>text' = ''a'', startInMs = Finite 3000, duration = Finite 1000\<rparr>,
                     \<lparr>text' = ''b'', startInMs = NaN, duration = Finite 1000\<rparr>,
                     \<lparr>text' = ''c'', startInMs = Finite 1000, duration = Finite 1000\<rparr>]))
   \<and> \<not> sorted_by_start
         [\<lparr>text' = ''a'', startInMs = Finite 3000, duration = Finite 1000\<rparr>,
          \<lparr>text' = ''b'', startInMs = NaN, duration = Finite 1000\<rparr>,
          \<lparr>text' = ''c'', startInMs = Finite 1000, duration = Finite 1000\<rparr>]
   \<and> \<not> num_le (Finite 3000) (Finite 1000)\<close>
proof -
  have e: \<open>transcriptYt example_to_ms (\<lambda>g. PosInfinity)
     (example_fetch ''<text start="3" dur="1">a</text><text start="x" dur="1">b</text><text start="1" dur="1">c</text>'')
     example_args
   = ([], Inr (Some [\<lparr>text' = ''a'', startInMs = Finite 3000, duration = Finite 1000\<rparr>,
                     \<lparr>text' = ''b'', startInMs = NaN, duration = Finite 1000\<rparr>,
                     \<lparr>text' = ''c'', startInMs = Finite 1000, duration = Finite 1000\<rparr>]))\<close>
    by code_simp
  show ?thesis unfolding e by (simp add: sorted_by_start_def)
qed

text \<open>
  What holds of every argument, every behaviour of the network and every conversion of
  the time attributes: the promise of \<open>transcriptYt\<close> is fulfilled, never rejected,
  either with \<open>null\<close>, one line having been logged under one of the five categories, or
  with a list of segments that is not empty, and that is sorted by start time when
  none of its start times is \<open>NaN\<close>. Every exception of the \<open>try\<close> block ends in the
  first case.
\<close>

theorem transcriptYt_never_raises:
  "(\<exists>c\<in>set categories. \<exists>m. transcriptYt to_ms big fetch args = ([logError c m], Inr None))
   \<or> (\<exists>segs. segs \<noteq> []
        \<and> transcriptYt to_ms big fetch args = ([], Inr (Some segs))
        \<and> ((\<forall>s\<in>set segs. startInMs s \<noteq> NaN) \<longrightarrow> sorted_by_start segs))"
proof (cases "try_block to_ms big fetch args")
  case (Inl err)
  from catch_block_result[of err] obtain c m where
    "c \<in> set categories" "catch_block err = ([logError c m], None)" by blast
  with Inl have "c \<in> set categories"
    "transcriptYt to_ms big fetch args = ([logError c m], Inr None)"
    by (simp_all add: transcriptYt_def)
  then show ?thesis by blast
next
  case (Inr out)
  obtain lines result where out: "out = (lines, result)" by (cases out)
  with Inr have t: "transcriptYt to_ms big fetch args = (lines, Inr result)"
    by (simp add: transcriptYt_def)
  from Inr out try_block_result[of to_ms big fetch args lines result]
  consider (absent) c m where "c \<in> set categories" "lines = [logError c m]" "result = None"
    | (segments) segs where "lines = []" "result = Some segs" "segs \<noteq> []"
        "(\<forall>s\<in>set segs. startInMs s \<noteq> NaN) \<longrightarrow> sorted_by_start segs"
    by blast
  then show ?thesis
  proof cases
    case absent
    with t show ?thesis by blast
  next
    case segments
    with t show ?thesis by blast
  qed
qed

text \<open>The theorem at a run whose caption document has the start times 3 and 1.\<close>

theorem transcriptYt_never_raises_witness:
  \<open>transcriptYt example_to_ms (\<lambda>g. PosInfinity)
     (example_fetch ''<text start="3" dur="1">a</text><text start="1" dur="1">c</text>'')
     example_args
   = ([], Inr (Some [\<lparr>text' = ''c'', startInMs = Finite 1000, duration = Finite 1000\<rparr>,
                     \<lparr>text' = ''a'', startInMs = Finite 3000, duration = Finite 1000\<rparr>]))
   \<and> sorted_by_start
         [\<lparr>text' = ''c'', startInMs = Finite 1000, duration = Finite 1000\<rparr>,
          \<lparr>text' = ''a'', startInMs = Finite 3000, duration = Finite 1000\<rparr>]\<close>
proof -
  have e: \<open>transcriptYt example_to_ms (\<lambda>g. PosInfinity)
     (example_fetch ''<text start="3" dur="1">a</text><text start="1" dur="1">c</text>'')
     example_args
   = ([], Inr (Some [\<lparr>text' = ''c'', startInMs = Finite 1000, duration = Finite 1000\<rparr>,
                     \<lparr>text' = ''a'', startInMs = Finite 3000, duration = Finite 1000\<rparr>]))\<close>
    by code_simp
  from transcriptYt_never_raises[of example_to_ms "\<lambda>g. PosInfinity"
      \<open>example_fetch ''<text start="3" dur="1">a</text><text start="1" dur="1">c</text>''\<close>
      example_args]
  show ?thesis unfolding e by auto
qed

section \<open>Properties of the request handler\<close>

lemma extractVideoId_no_marker: "extractVideoId ''not a video'' = None"
  by code_simp

text \<open>
  C2 (the code departs from the claim). On a URL with no video identifier the pipeline
  classifies the failure as \<open>invalid_url\<close> and writes it to the console only; the
  handler reads \<open>lastError\<close>, which nothing sets, and answers 404 with neither reason
  nor category.
\<close>

theorem GET_hides_category:
  "fst (transcriptYt to_ms big fetch
          \<lparr>videoUrl = ''not a video'', preferredLanguages = Some [''pt'', ''en'']\<rparr>)
     = [logError ''invalid_url'' ''unable_to_extract_video_id'']
   \<and> GET to_ms big fetch None (Some ''not a video'')
     = Inr \<lparr>http_status = 404, http_body = No_transcript None None\<rparr>"
  by (simp add: GET_def transcriptYt_def try_block_def extractVideoId_no_marker)

end
